theory Spec2Isabelle
  imports Main
begin

section \<open>Python 2 byte strings\<close>

text \<open>
  The script is Python 2: a \<open>str\<close> is a sequence of bytes, modelled as \<^typ>\<open>string\<close>.
  \<open>str.strip\<close>, \<open>str.lstrip\<close> and \<open>str.rstrip\<close> without an argument remove the six
  ASCII whitespace bytes: space, tab, line feed, vertical tab, form feed, carriage return.
\<close>

definition isspace :: "char \<Rightarrow> bool" where
  "isspace c \<longleftrightarrow> c \<in> {CHR '' '', CHR 0x09, CHR 0x0A, CHR 0x0B, CHR 0x0C, CHR 0x0D}"

definition lstrip :: "string \<Rightarrow> string" where
  "lstrip s = dropWhile isspace s"

definition rstrip :: "string \<Rightarrow> string" where
  "rstrip s = rev (dropWhile isspace (rev s))"

definition strip :: "string \<Rightarrow> string" where
  "strip s = rstrip (lstrip s)"

text \<open>
  \<open>s.split(sep)\<close> for a one-byte separator: the pieces between the separators, empty
  pieces included. The scan keeps the piece it is reading (reversed) in \<open>cur\<close> and closes
  it at each separator and at the end, so the result always has at least one element.
\<close>

fun split_from :: "char \<Rightarrow> string \<Rightarrow> string \<Rightarrow> string list" where
  "split_from sep cur [] = [rev cur]"
| "split_from sep cur (c # cs) =
     (if c = sep then rev cur # split_from sep [] cs else split_from sep (c # cur) cs)"

definition split :: "char \<Rightarrow> string \<Rightarrow> string list" where
  "split sep s = split_from sep [] s"

text \<open>\<open>s.replace(a, b)\<close> for one-byte \<open>a\<close> and \<open>b\<close>.\<close>

definition replace :: "char \<Rightarrow> char \<Rightarrow> string \<Rightarrow> string" where
  "replace a b s = map (\<lambda>c. if c = a then b else c) s"

section \<open>branch_name\<close>

text \<open>
  \<^verbatim>\<open>return message.lstrip().split('\n')[0].rstrip().replace(' ', '_')\<close>

  Index 0 of the split is its head: the split of any string is non-empty
  (\<open>split_not_Nil\<close> below), so the index never raises.
\<close>

definition branch_name :: "string \<Rightarrow> string" where
  "branch_name message =
     replace CHR '' '' CHR ''_'' (rstrip (hd (split CHR 0x0A (lstrip message))))"

section \<open>The regular expressions of the script\<close>

text \<open>
  The script uses five patterns of Python's \<open>re\<close> module. Each is a sequence of
  one-byte atoms, some of them under \<open>?\<close>, \<open>*\<close> or \<open>+\<close>:
  \<^item> a literal byte;
  \<^item> \<open>.\<close>, any byte but the line feed;
  \<^item> a class \<open>[...]\<close> or a complemented class \<open>[^...]\<close> (\<open>\W\<close> is the complement of
    the word bytes).
  Every one of the five starts with a literal byte. A pattern is therefore kept as its
  first atom and the items after it, and a match has at least one byte: the rules of
  \<open>re.sub\<close> for empty matches never apply.
\<close>

datatype atom = Lit char | AnyChar | Cls string | NotCls string

datatype item = One atom | Opt atom | Star atom | Plus atom

type_synonym regex = "atom \<times> item list"

fun ok :: "atom \<Rightarrow> char \<Rightarrow> bool" where
  "ok (Lit x) c \<longleftrightarrow> c = x"
| "ok AnyChar c \<longleftrightarrow> c \<noteq> CHR 0x0A"
| "ok (Cls xs) c \<longleftrightarrow> c \<in> set xs"
| "ok (NotCls xs) c \<longleftrightarrow> c \<notin> set xs"

text \<open>
  \<open>push c ps\<close> adds the byte \<open>c\<close> to the text of the first item. The matcher below
  returns one text for each item, so the list is never empty where \<open>push\<close> is used.
\<close>

fun push :: "char \<Rightarrow> string list \<Rightarrow> string list" where
  "push c [] = [[c]]"
| "push c (p # ps) = (c # p) # ps"

text \<open>
  The backtracking matcher, anchored at the start of the string: the text each item
  consumed, in the order Python tries the alternatives (a repetition takes as many bytes
  as it can and gives them back one by one).
\<close>

fun rmatch :: "item list \<Rightarrow> string \<Rightarrow> string list option" where
  "rmatch [] s = Some []"
| "rmatch (One a # r) [] = None"
| "rmatch (One a # r) (c # cs) =
     (if ok a c then map_option ((#) [c]) (rmatch r cs) else None)"
| "rmatch (Opt a # r) [] = map_option ((#) []) (rmatch r [])"
| "rmatch (Opt a # r) (c # cs) =
     (if ok a c then
        (case rmatch r cs of
           Some ps \<Rightarrow> Some ([c] # ps)
         | None \<Rightarrow> map_option ((#) []) (rmatch r (c # cs)))
      else map_option ((#) []) (rmatch r (c # cs)))"
| "rmatch (Star a # r) [] = map_option ((#) []) (rmatch r [])"
| "rmatch (Star a # r) (c # cs) =
     (if ok a c then
        (case rmatch (Star a # r) cs of
           Some ps \<Rightarrow> Some (push c ps)
         | None \<Rightarrow> map_option ((#) []) (rmatch r (c # cs)))
      else map_option ((#) []) (rmatch r (c # cs)))"
| "rmatch (Plus a # r) [] = None"
| "rmatch (Plus a # r) (c # cs) =
     (if ok a c then map_option (push c) (rmatch (Star a # r) cs) else None)"

definition match_at :: "regex \<Rightarrow> string \<Rightarrow> string list option" where
  "match_at p s = rmatch (One (fst p) # snd p) s"

text \<open>
  \<open>re.search\<close>: the leftmost position with a match. The result is the text before the
  match and the texts of the items.
\<close>

fun search_from :: "regex \<Rightarrow> string \<Rightarrow> string \<Rightarrow> (string \<times> string list) option" where
  "search_from p pre [] = None"
| "search_from p pre (c # cs) =
     (case match_at p (c # cs) of
        Some ps \<Rightarrow> Some (rev pre, ps)
      | None \<Rightarrow> search_from p (c # pre) cs)"

definition search :: "regex \<Rightarrow> string \<Rightarrow> (string \<times> string list) option" where
  "search p s = search_from p [] s"

text \<open>
  \<open>pattern.sub(repl, s)\<close> with a replacement that is plain text: every match, leftmost
  first and not overlapping, is replaced (the \<open>count\<close> argument is not given). \<open>k\<close>
  counts the bytes of the current match that are still to be skipped.
\<close>

fun sub_scan :: "regex \<Rightarrow> string \<Rightarrow> nat \<Rightarrow> string \<Rightarrow> string" where
  "sub_scan p repl k [] = []"
| "sub_scan p repl (Suc k) (c # cs) = sub_scan p repl k cs"
| "sub_scan p repl 0 (c # cs) =
     (case match_at p (c # cs) of
        Some ps \<Rightarrow> repl @ sub_scan p repl (length (concat ps) - 1) cs
      | None \<Rightarrow> c # sub_scan p repl 0 cs)"

text \<open>
  \<open>re.sub\<close> reads a backslash in the replacement as template syntax (escapes and group
  references). That syntax is outside this development: a replacement with a backslash
  gets no result here, and the callers report it as \<open>Unmodelled\<close>.
\<close>

definition sub :: "regex \<Rightarrow> string \<Rightarrow> string \<Rightarrow> string option" where
  "sub p repl s = (if CHR 0x5C \<in> set repl then None else Some (sub_scan p repl 0 s))"

definition lits :: "string \<Rightarrow> item list" where
  "lits s = map (\<lambda>c. One (Lit c)) s"

definition digit_chars :: string where
  "digit_chars = ''0123456789''"

definition hex_chars :: string where
  "hex_chars = ''0123456789abcdef''"

definition word_chars :: string where
  "word_chars =
     ''abcdefghijklmnopqrstuvwxyzABCDEFGHIJKLMNOPQRSTUVWXYZ0123456789_''"

text \<open>
  The two fields of the manifest: a key, a quoted value and a comma. \<open>field k v\<close> is
  the text of the field with key \<open>k\<close> and value \<open>v\<close>.
\<close>

definition rev_key :: string where
  "rev_key = [CHR 0x22] @ ''skia_revision'' @ [CHR 0x22] @ '': '' @ [CHR 0x22]"

definition hash_key :: string where
  "hash_key = [CHR 0x22] @ ''skia_hash'' @ [CHR 0x22] @ '': '' @ [CHR 0x22]"

definition field_end :: string where
  "field_end = [CHR 0x22] @ '',''"

definition field :: "string \<Rightarrow> string \<Rightarrow> string" where
  "field k v = k @ v @ field_end"

text \<open>\<^verbatim>\<open>'"skia_revision": "[0-9]*",'\<close>\<close>

definition deps_regex_rev :: regex where
  "deps_regex_rev =
     (Lit CHR 0x22, lits (tl rev_key) @ [Star (Cls digit_chars)] @ lits field_end)"

text \<open>\<^verbatim>\<open>'"skia_hash": "[0-9a-f]*",'\<close>\<close>

definition deps_regex_hash :: regex where
  "deps_regex_hash =
     (Lit CHR 0x22, lits (tl hash_key) @ [Star (Cls hex_chars)] @ lits field_end)"

section \<open>Printing integers\<close>

text \<open>\<^verbatim>\<open>'%d' % n\<close>: the decimal digits, with a minus sign for a negative number.\<close>

function dec :: "nat \<Rightarrow> string" where
  "dec n = (if n < 10 then [digit_chars ! n] else dec (n div 10) @ [digit_chars ! (n mod 10)])"
  by pat_completeness auto
termination
  by (relation "measure id") auto

declare dec.simps [simp del]

definition format_d :: "int \<Rightarrow> string" where
  "format_d i = (if i < 0 then CHR ''-'' # dec (nat (- i)) else dec (nat i))"

section \<open>The world the script runs in\<close>

text \<open>
  The script reads and writes files, creates temporary files and directories, and starts
  processes. All of that is state, passed explicitly: every operation takes the world and
  returns the new one together with its result. An exception is a result too, and the
  world it leaves behind is returned with it.
\<close>

datatype error =
    OSError
  | IOError
  | CalledProcessError
  | AssertionError
  | TypeError
  | ShutilError
  | DepsRollError string
  | UsageError string
  | BodyError
  | Unmodelled

text \<open>
  \<open>TypeError\<close> is what Python raises where \<open>None\<close> stands for a string;
  \<open>ShutilError\<close> is \<open>shutil.Error\<close>;
  \<open>UsageError\<close> is the exit of \<open>option_parser.error\<close>; \<open>BodyError\<close> is an error
  raised by the caller's code inside a \<open>with\<close> block; \<open>Unmodelled\<close> marks the
  places where the development stops (a backslash in a replacement text, moving a
  directory).
\<close>

record file_entry =
  content :: string
  readable :: bool
  writable :: bool

type_synonym commit = "string \<times> string"

text \<open>
  A checkout, as far as the script can tell one state from another: where \<open>HEAD\<close>
  points, the local branches, the history of \<open>origin/master\<close> (newest first, hash and
  message), the paths with uncommitted changes, the staged paths and the stash.
\<close>

record repo =
  origin :: string
  upstream :: "commit list"
  objects :: "string set"
  head :: string
  detached :: bool
  branches :: "string \<rightharpoonup> string"
  modified :: "string set"
  index :: "string set"
  stash :: "string set list"
  svn_info_text :: "string option"
  issue_text :: string
  serial :: nat

datatype program = Git | Other int

record world =
  files :: "string \<rightharpoonup> file_entry"
  dirs :: "string set"
  cwd :: string
  device_of :: "string \<Rightarrow> nat"
  disk_free :: "nat \<Rightarrow> nat"
  tmp_serial :: nat
  programs :: "string \<rightharpoonup> program"
  faults :: "nat set"
  trace :: "string list list"
  printed :: "string list"
  repos :: "string \<rightharpoonup> repo"
  remotes :: "string \<rightharpoonup> commit list"

type_synonym 'a io = "world \<Rightarrow> (error + 'a) \<times> world"

definition return :: "'a \<Rightarrow> 'a io" where
  "return x = (\<lambda>w. (Inr x, w))"

definition raise :: "error \<Rightarrow> 'a io" where
  "raise e = (\<lambda>w. (Inl e, w))"

definition bind :: "'a io \<Rightarrow> ('a \<Rightarrow> 'b io) \<Rightarrow> 'b io" where
  "bind m f = (\<lambda>w. case m w of (Inl e, w') \<Rightarrow> (Inl e, w') | (Inr x, w') \<Rightarrow> f x w')"

text \<open>\<open>try: m finally: c\<close>: \<open>c\<close> runs on every path; an error of \<open>c\<close> replaces the outcome.\<close>

definition try_finally :: "'a io \<Rightarrow> unit io \<Rightarrow> 'a io" where
  "try_finally m c =
     (\<lambda>w. case m w of
        (r, w') \<Rightarrow> (case c w' of (Inl e, w'') \<Rightarrow> (Inl e, w'') | (Inr _, w'') \<Rightarrow> (r, w'')))"

text \<open>\<open>try: m except errs: h\<close>.\<close>

definition try_except :: "'a io \<Rightarrow> (error \<Rightarrow> bool) \<Rightarrow> (error \<Rightarrow> 'a io) \<Rightarrow> 'a io" where
  "try_except m caught h =
     (\<lambda>w. case m w of
        (Inl e, w') \<Rightarrow> (if caught e then h e w' else (Inl e, w'))
      | (Inr x, w') \<Rightarrow> (Inr x, w'))"

text \<open>Using a value that may be \<open>None\<close> where a string is required.\<close>

definition need :: "'a option \<Rightarrow> 'a io" where
  "need x = (case x of None \<Rightarrow> raise TypeError | Some v \<Rightarrow> return v)"

text \<open>A \<open>print\<close> statement: one more entry of what the script has printed.\<close>

definition print :: "string \<Rightarrow> unit io" where
  "print line = (\<lambda>w. (Inr (), w\<lparr>printed := printed w @ [line]\<rparr>))"

subsection \<open>Files\<close>

text \<open>A relative path is read from the current directory.\<close>

definition resolve :: "world \<Rightarrow> string \<Rightarrow> string" where
  "resolve w p = (if p \<noteq> [] \<and> hd p = CHR ''/'' then p else cwd w @ ''/'' @ p)"

definition exists :: "world \<Rightarrow> string \<Rightarrow> bool" where
  "exists w p \<longleftrightarrow> resolve w p \<in> dom (files w) \<or> resolve w p \<in> dirs w"

definition isdir :: "world \<Rightarrow> string \<Rightarrow> bool" where
  "isdir w p \<longleftrightarrow> resolve w p \<in> dirs w"

definition chdir :: "string \<Rightarrow> unit io" where
  "chdir p = (\<lambda>w. if isdir w p then (Inr (), w\<lparr>cwd := resolve w p\<rparr>) else (Inl OSError, w))"

text \<open>
  A write to a relative path inside a checkout is an uncommitted change of that checkout.
  (Every such write counts, also one that writes the bytes the file already had.)
\<close>

definition note_change :: "string \<Rightarrow> world \<Rightarrow> world" where
  "note_change p w =
     (if p \<noteq> [] \<and> hd p = CHR ''/'' then w
      else (case repos w (cwd w) of
              None \<Rightarrow> w
            | Some r \<Rightarrow> w\<lparr>repos := (repos w)(cwd w \<mapsto> r\<lparr>modified := insert p (modified r)\<rparr>)\<rparr>))"

text \<open>
  \<open>open(path, 'r')\<close> and reading the file: the content, or \<open>IOError\<close> when there is
  no such file, when the path is a directory or when the file may not be read.
\<close>

definition open_read :: "string \<Rightarrow> string io" where
  "open_read path =
     (\<lambda>w. if resolve w path \<in> dirs w then (Inl IOError, w)
        else (case files w (resolve w path) of
                None \<Rightarrow> (Inl IOError, w)
              | Some f \<Rightarrow> if readable f then (Inr (content f), w) else (Inl IOError, w)))"

text \<open>
  Iterating over a file gives its lines, each with its line feed; the last one may have
  none.
\<close>

fun lines_from :: "string \<Rightarrow> string \<Rightarrow> string list" where
  "lines_from cur [] = (if cur = [] then [] else [rev cur])"
| "lines_from cur (c # cs) =
     (if c = CHR 0x0A then rev (c # cur) # lines_from [] cs else lines_from (c # cur) cs)"

definition readlines :: "string \<Rightarrow> string list" where
  "readlines s = lines_from [] s"

text \<open>
  \<open>tempfile\<close> picks a name that is not in use. Here the name comes from a counter; should
  it be taken all the same, the call fails the way \<open>tempfile\<close> does when it finds no
  usable name.
\<close>

definition temp_name :: "string \<Rightarrow> world \<Rightarrow> string" where
  "temp_name prefix w = ''/tmp/'' @ prefix @ dec (tmp_serial w)"

definition NamedTemporaryFile :: "string \<Rightarrow> string io" where
  "NamedTemporaryFile prefix =
     (\<lambda>w. let name = temp_name prefix w in
        if name \<in> dom (files w) \<or> name \<in> dirs w then (Inl IOError, w)
        else (Inr name,
              w\<lparr>files := (files w)(name \<mapsto> \<lparr>content = [], readable = True, writable = True\<rparr>),
                tmp_serial := Suc (tmp_serial w)\<rparr>))"

definition mkdtemp :: "string \<Rightarrow> string io" where
  "mkdtemp prefix =
     (\<lambda>w. let name = temp_name prefix w in
        if name \<in> dom (files w) \<or> name \<in> dirs w then (Inl IOError, w)
        else (Inr name, w\<lparr>dirs := insert name (dirs w), tmp_serial := Suc (tmp_serial w)\<rparr>))"

text \<open>
  Every path lies on a device (\<open>device_of\<close>), and device \<open>d\<close> has \<open>disk_free w d\<close>
  bytes left. A write that does not fit raises \<open>IOError\<close>.

  Writing to an open temporary file, named by its absolute path.
\<close>

definition file_write :: "string \<Rightarrow> string \<Rightarrow> unit io" where
  "file_write name text =
     (\<lambda>w. case files w name of
        None \<Rightarrow> (Inl IOError, w)
      | Some f \<Rightarrow>
          if disk_free w (device_of w name) < length text then (Inl IOError, w)
          else (Inr (),
                w\<lparr>files := (files w)(name \<mapsto> f\<lparr>content := content f @ text\<rparr>),
                  disk_free := (disk_free w)
                    (device_of w name := disk_free w (device_of w name) - length text)\<rparr>))"

text \<open>\<open>with open(path, 'a') as f: f.write(text)\<close>.\<close>

definition append_file :: "string \<Rightarrow> string \<Rightarrow> unit io" where
  "append_file path text =
     (\<lambda>w. let p = resolve w path; room = disk_free w (device_of w p) in
        if p \<in> dirs w then (Inl IOError, w)
        else (case files w p of
                None \<Rightarrow>
                  if room < length text then (Inl IOError, w)
                  else (Inr (),
                        note_change path
                          (w\<lparr>files := (files w)(p \<mapsto>
                                \<lparr>content = text, readable = True, writable = True\<rparr>),
                             disk_free := (disk_free w)(device_of w p := room - length text)\<rparr>))
              | Some f \<Rightarrow>
                  if \<not> writable f \<or> room < length text then (Inl IOError, w)
                  else (Inr (),
                        note_change path
                          (w\<lparr>files := (files w)(p \<mapsto> f\<lparr>content := content f @ text\<rparr>),
                             disk_free := (disk_free w)(device_of w p := room - length text)\<rparr>))))"

definition basename :: "string \<Rightarrow> string" where
  "basename p = rev (takeWhile (\<lambda>c. c \<noteq> CHR ''/'') (rev p))"

subsection \<open>shutil.move\<close>

text \<open>
  \<open>os.rename(s, d)\<close> for a file, on absolute paths: within one device the file at \<open>s\<close>
  takes the place of whatever file is at \<open>d\<close>, in one step and with its own mode bits;
  the mode bits of the file it replaces play no part. Between two devices it raises
  \<open>OSError\<close>.
\<close>

definition rename :: "string \<Rightarrow> string \<Rightarrow> unit io" where
  "rename s d =
     (\<lambda>w. case files w s of
        None \<Rightarrow> (Inl OSError, w)
      | Some f \<Rightarrow>
          if device_of w s \<noteq> device_of w d \<or> d \<in> dirs w then (Inl OSError, w)
          else (Inr (),
                w\<lparr>files := ((files w)(s := None))(d \<mapsto> f),
                  disk_free := (disk_free w)
                    (device_of w d := disk_free w (device_of w d) +
                       (case files w d of
                          None \<Rightarrow> 0
                        | Some g \<Rightarrow> if s = d then 0 else length (content g)))\<rparr>))"

text \<open>
  \<open>shutil.copy2(s, d)\<close>: the source is opened for reading and the target for writing,
  which empties it in place; then the bytes are copied, and at the end the mode bits.
  A target that exists and may not be written raises \<open>IOError\<close> before anything has
  changed. When the bytes do not fit on the target's device, the copy raises \<open>IOError\<close>
  and the target keeps the bytes that did fit.
\<close>

definition copy2 :: "string \<Rightarrow> string \<Rightarrow> unit io" where
  "copy2 s d =
     (\<lambda>w. case files w s of
        None \<Rightarrow> (Inl IOError, w)
      | Some f \<Rightarrow>
          if s = d then (Inl ShutilError, w)
          else if \<not> readable f \<or> d \<in> dirs w then (Inl IOError, w)
          else
            (let g = (case files w d of
                        None \<Rightarrow> \<lparr>content = [], readable = True, writable = True\<rparr>
                      | Some g \<Rightarrow> g);
                 room = disk_free w (device_of w d) + length (content g) in
             if \<not> writable g then (Inl IOError, w)
             else if room < length (content f) then
               (Inl IOError,
                w\<lparr>files := (files w)(d \<mapsto> g\<lparr>content := take room (content f)\<rparr>),
                  disk_free := (disk_free w)(device_of w d := 0)\<rparr>)
             else
               (Inr (),
                w\<lparr>files := (files w)(d \<mapsto> f),
                  disk_free := (disk_free w)(device_of w d := room - length (content f))\<rparr>)))"

text \<open>\<open>os.unlink(s)\<close>.\<close>

definition unlink :: "string \<Rightarrow> unit io" where
  "unlink s =
     (\<lambda>w. case files w s of
        None \<Rightarrow> (Inl OSError, w)
      | Some f \<Rightarrow>
          (Inr (),
           w\<lparr>files := (files w)(s := None),
             disk_free := (disk_free w)
               (device_of w s := disk_free w (device_of w s) + length (content f))\<rparr>))"

text \<open>
  The core of \<open>shutil.move\<close> for a file:
  \<^verbatim>\<open>
  try:
      os.rename(src, real_dst)
  except OSError:
      ...
      copy2(src, real_dst)
      os.unlink(src)
  \<close>
\<close>

definition move_file :: "string \<Rightarrow> string \<Rightarrow> unit io" where
  "move_file s d =
     try_except (rename s d) (\<lambda>e. e = OSError) (\<lambda>_. bind (copy2 s d) (\<lambda>_. unlink s))"

text \<open>
  \<open>shutil.move(src, dst)\<close>. Onto a directory, the file moves into it, unless the name is
  taken there. Moving a directory is not modelled. A change of a file inside a checkout
  is noted as an uncommitted change, also when the move fails half way.
\<close>

definition shutil_move :: "string \<Rightarrow> string \<Rightarrow> unit io" where
  "shutil_move src dst =
     (\<lambda>w. let s = resolve w src; d = resolve w dst in
        if s \<in> dirs w then (Inl Unmodelled, w)
        else if d \<in> dirs w then
          (let d' = d @ ''/'' @ basename s in
           if d' \<in> dom (files w) \<or> d' \<in> dirs w then (Inl ShutilError, w)
           else move_file s d' w)
        else
          (case move_file s d w of
             (r, w') \<Rightarrow> (r, if files w' d = files w d then w' else note_change dst w')))"

text \<open>\<open>shutil.rmtree(dir)\<close>: the directory and everything below it.\<close>

definition under :: "string \<Rightarrow> string \<Rightarrow> bool" where
  "under d p \<longleftrightarrow> p = d \<or> take (length d + 1) p = d @ ''/''"

definition rmtree :: "string \<Rightarrow> unit io" where
  "rmtree d =
     (\<lambda>w. if d \<notin> dirs w then (Inl OSError, w)
        else (Inr (),
              w\<lparr>files := (\<lambda>p. if under d p then None else files w p),
                dirs := {p \<in> dirs w. \<not> under d p},
                repos := (\<lambda>p. if under d p then None else repos w p)\<rparr>))"

section \<open>change_skia_deps\<close>

text \<open>
  The loop over the lines of the manifest: both substitutions, then the write to the
  temporary file.
  \<^verbatim>\<open>
  for line in input_stream:
      line = deps_regex_rev.sub(deps_regex_rev_repl, line)
      line = deps_regex_hash.sub(deps_regex_hash_repl, line)
      temp_file.write(line)
  \<close>
\<close>

definition rewrite_line :: "string \<Rightarrow> string \<Rightarrow> string \<Rightarrow> string option" where
  "rewrite_line rev_repl hash_repl line =
     (case sub deps_regex_rev rev_repl line of
        None \<Rightarrow> None
      | Some line1 \<Rightarrow> sub deps_regex_hash hash_repl line1)"

text \<open>What a line becomes when both substitutions have a result.\<close>

definition rewritten :: "string \<Rightarrow> string \<Rightarrow> string \<Rightarrow> string" where
  "rewritten rr hr l = sub_scan deps_regex_hash hr 0 (sub_scan deps_regex_rev rr 0 l)"

fun rewrite_lines :: "string \<Rightarrow> string \<Rightarrow> string \<Rightarrow> string list \<Rightarrow> unit io" where
  "rewrite_lines rev_repl hash_repl temp [] = return ()"
| "rewrite_lines rev_repl hash_repl temp (line # rest) =
     (case rewrite_line rev_repl hash_repl line of
        None \<Rightarrow> raise Unmodelled
      | Some line' \<Rightarrow>
          bind (file_write temp line') (\<lambda>_. rewrite_lines rev_repl hash_repl temp rest))"

text \<open>
  \<^verbatim>\<open>deps_regex_rev_repl = '"skia_revision": "%d",' % revision\<close> and
  \<^verbatim>\<open>deps_regex_hash_repl = '"skia_hash": "%s",' % git_hash\<close>
\<close>

definition deps_regex_rev_repl :: "int \<Rightarrow> string" where
  "deps_regex_rev_repl revision = field rev_key (format_d revision)"

definition deps_regex_hash_repl :: "string \<Rightarrow> string" where
  "deps_regex_hash_repl git_hash = field hash_key git_hash"

text \<open>
  \<^verbatim>\<open>
  temp_file = tempfile.NamedTemporaryFile(delete=False, prefix='skia_DEPS_ROLL_tmp_')
  try:
      ...
      with open(depspath, 'r') as input_stream:
          for line in input_stream: ...
  finally:
      temp_file.close()
  shutil.move(temp_file.name, depspath)
  \<close>
  Closing the temporary file changes nothing in this model (a write reaches the file at
  once), so the \<open>finally\<close> clause is \<open>return ()\<close>.
\<close>

definition change_skia_deps :: "int \<Rightarrow> string \<Rightarrow> string \<Rightarrow> unit io" where
  "change_skia_deps revision git_hash depspath =
     bind (NamedTemporaryFile ''skia_DEPS_ROLL_tmp_'') (\<lambda>temp_file.
     bind (try_finally
             (bind (open_read depspath) (\<lambda>input_stream.
                rewrite_lines (deps_regex_rev_repl revision) (deps_regex_hash_repl git_hash)
                  temp_file (readlines input_stream)))
             (return ())) (\<lambda>_.
     shutil_move temp_file depspath))"

text \<open>
  The function up to the move: the temporary file is created and the rewritten lines are
  written to it. The result is the name of the temporary file.
\<close>

definition rewrite_to_temp :: "int \<Rightarrow> string \<Rightarrow> string \<Rightarrow> string io" where
  "rewrite_to_temp revision git_hash depspath =
     bind (NamedTemporaryFile ''skia_DEPS_ROLL_tmp_'') (\<lambda>temp_file.
     bind (try_finally
             (bind (open_read depspath) (\<lambda>input_stream.
                rewrite_lines (deps_regex_rev_repl revision) (deps_regex_hash_repl git_hash)
                  temp_file (readlines input_stream)))
             (return ())) (\<lambda>_.
     return temp_file))"

section \<open>Processes and the version-control tool\<close>

text \<open>
  The script drives \<open>git\<close> through \<open>subprocess\<close>. What follows is the part of git's
  documented behaviour that the script relies on, for exactly the command lines it
  issues; any other command line exits with status 1. A checkout is the \<^typ>\<open>repo\<close>
  record, so the model says nothing about the content of commits: a checkout of another
  branch moves \<open>HEAD\<close> and leaves the set of modified paths alone.
\<close>

definition newline :: string where
  "newline = [CHR 0x0A]"

text \<open>\<open>sep.join(xs)\<close>.\<close>

fun join :: "string \<Rightarrow> string list \<Rightarrow> string" where
  "join sep [] = []"
| "join sep [x] = x"
| "join sep (x # y # ys) = x @ sep @ join sep (y # ys)"

text \<open>
  A decimal number on a command line. \<open>digit_val c\<close> is 10 when \<open>c\<close> is no digit.
\<close>

definition digit_val :: "char \<Rightarrow> nat" where
  "digit_val c = length (takeWhile (\<lambda>d. d \<noteq> c) digit_chars)"

fun parse_nat_from :: "nat \<Rightarrow> string \<Rightarrow> nat option" where
  "parse_nat_from acc [] = Some acc"
| "parse_nat_from acc (c # cs) =
     (if digit_val c < 10 then parse_nat_from (10 * acc + digit_val c) cs else None)"

definition parse_nat :: "string \<Rightarrow> nat option" where
  "parse_nat s = (if s = [] then None else parse_nat_from 0 s)"

text \<open>
  \<open>git log --grep=PATTERN\<close> keeps the commits whose message has a match of the pattern,
  a basic regular expression. In the patterns the script passes, the only special byte
  is the dot.
\<close>

definition grep_atom :: "char \<Rightarrow> atom" where
  "grep_atom c = (if c = CHR ''.'' then AnyChar else Lit c)"

definition grep :: "string \<Rightarrow> string \<Rightarrow> bool" where
  "grep pattern message =
     (case pattern of
        [] \<Rightarrow> True
      | c # cs \<Rightarrow> search (grep_atom c, map (\<lambda>x. One (grep_atom x)) cs) message \<noteq> None)"

text \<open>The name of the commit that \<open>git commit\<close> creates.\<close>

definition new_hash :: "nat \<Rightarrow> string" where
  "new_hash n = ''c'' @ dec n"

text \<open>
  One git command inside a checkout: the exit status, the standard output and the new
  state of the checkout. \<open>present\<close> tells whether a path exists in the working tree;
  \<open>remote\<close> is the history that the remote \<open>origin\<close> serves, if it can be reached.
\<close>

definition git_repo ::
  "string list \<Rightarrow> (string \<Rightarrow> bool) \<Rightarrow> commit list option \<Rightarrow> repo \<Rightarrow> (int \<times> string) \<times> repo"
where
  "git_repo args present remote r =
    (if args = [''fetch'', ''-q'', ''origin''] then
       (case remote of
          None \<Rightarrow> ((128, []), r)
        | Some h \<Rightarrow> ((0, []), r\<lparr>upstream := h, objects := objects r \<union> set (map fst h)\<rparr>))
     else if args = [''log'', ''-n'', ''1'', ''--format=format:%B'', ''origin/master''] then
       (case upstream r of
          [] \<Rightarrow> ((128, []), r)
        | (h, m) # _ \<Rightarrow> ((0, m), r))
     else if args = [''show-ref'', ''origin/master'', ''--hash''] then
       (case upstream r of
          [] \<Rightarrow> ((1, []), r)
        | (h, m) # _ \<Rightarrow> ((0, h @ newline), r))
     else if length args = 5 \<and> args ! 0 = ''log'' \<and> args ! 1 = ''--grep''
          \<and> args ! 3 = ''--format=format:%H'' \<and> args ! 4 = ''origin/master'' then
       (case upstream r of
          [] \<Rightarrow> ((128, []), r)
        | _ # _ \<Rightarrow>
            ((0, join newline (map fst (filter (\<lambda>(h, m). grep (args ! 2) m) (upstream r)))), r))
     else if length args = 3 \<and> take 2 args = [''show-ref'', ''--quiet''] then
       ((if args ! 2 \<in> dom (branches r) then 0 else 1, []), r)
     else if args = [''diff'', ''--quiet'', ''HEAD''] then
       ((if modified r = {} then 0 else 1, []), r)
     else if args = [''stash'', ''save''] then
       (if modified r = {} then ((0, ''No local changes to save'' @ newline), r)
        else ((0, []), r\<lparr>stash := modified r # stash r, modified := {}, index := {}\<rparr>))
     else if args = [''stash'', ''pop''] then
       (case stash r of
          [] \<Rightarrow> ((1, []), r)
        | s # ss \<Rightarrow> ((0, []), r\<lparr>stash := ss, modified := modified r \<union> s\<rparr>))
     else if args = [''symbolic-ref'', ''--short'', ''HEAD''] then
       (if detached r then ((128, []), r) else ((0, head r @ newline), r))
     else if args = [''rev-parse'', ''HEAD''] then
       (if detached r then ((0, head r @ newline), r)
        else (case branches r (head r) of
                None \<Rightarrow> ((128, []), r)
              | Some h \<Rightarrow> ((0, h @ newline), r)))
     else if length args = 5 \<and> take 3 args = [''checkout'', ''-q'', ''-b'']
          \<and> args ! 4 = ''origin/master'' then
       (case upstream r of
          [] \<Rightarrow> ((128, []), r)
        | (h, m) # _ \<Rightarrow>
            if args ! 3 \<in> dom (branches r) then ((128, []), r)
            else ((0, []),
                  r\<lparr>branches := (branches r)(args ! 3 \<mapsto> h), head := args ! 3,
                    detached := False\<rparr>))
     else if length args = 3 \<and> take 2 args = [''checkout'', ''-q''] then
       (if args ! 2 \<in> dom (branches r) then ((0, []), r\<lparr>head := args ! 2, detached := False\<rparr>)
        else if args ! 2 \<in> objects r then ((0, []), r\<lparr>head := args ! 2, detached := True\<rparr>)
        else ((1, []), r))
     else if length args = 4 \<and> take 3 args = [''branch'', ''-q'', ''-D''] then
       (if args ! 3 \<notin> dom (branches r) \<or> (\<not> detached r \<and> head r = args ! 3) then ((1, []), r)
        else ((0, []), r\<lparr>branches := (branches r)(args ! 3 := None)\<rparr>))
     else if args = [''svn'', ''info''] then
       (case svn_info_text r of
          None \<Rightarrow> ((1, []), r)
        | Some t \<Rightarrow> ((0, t), r))
     else if length args = 2 \<and> args ! 0 = ''add'' then
       (if present (args ! 1) then ((0, []), r\<lparr>index := index r \<union> ({args ! 1} \<inter> modified r)\<rparr>)
        else ((128, []), r))
     else if length args = 4 \<and> take 3 args = [''commit'', ''-q'', ''-m''] then
       (if index r = {} then ((1, []), r)
        else ((0, []),
              r\<lparr>objects := insert (new_hash (serial r)) (objects r),
                head := (if detached r then new_hash (serial r) else head r),
                branches := (if detached r then branches r
                             else (branches r)(head r \<mapsto> new_hash (serial r))),
                modified := modified r - index r,
                index := {},
                serial := Suc (serial r)\<rparr>))
     else if take 2 args = [''cl'', ''upload''] then ((0, []), r)
     else if args = [''cl'', ''issue''] then ((0, issue_text r), r)
     else if take 2 args = [''cl'', ''try''] then ((0, []), r)
     else ((1, []), r))"

text \<open>What \<open>git clone --depth=n --single-branch\<close> leaves in the target directory.\<close>

definition cloned_repo :: "string \<Rightarrow> commit list \<Rightarrow> repo" where
  "cloned_repo url h =
     \<lparr>origin = url, upstream = h, objects = set (map fst h), head = ''master'',
      detached = False,
      branches = (case h of [] \<Rightarrow> Map.empty | (x, m) # _ \<Rightarrow> [''master'' \<mapsto> x]),
      modified = {}, index = {}, stash = [], svn_info_text = None, issue_text = [],
      serial = 0\<rparr>"

text \<open>
  \<open>git clone -q --depth=n --single-branch URL DIR\<close>: the newest \<open>n\<close> commits of the
  remote, in a new checkout at \<open>DIR\<close>. It fails when the depth is no positive number
  or the remote cannot be reached.
\<close>

definition is_clone :: "string list \<Rightarrow> bool" where
  "is_clone args \<longleftrightarrow>
     length args = 6 \<and> args ! 0 = ''clone'' \<and> args ! 1 = ''-q''
       \<and> take 8 (args ! 2) = ''--depth='' \<and> args ! 3 = ''--single-branch''"

definition git_clone :: "string list \<Rightarrow> world \<Rightarrow> (int \<times> string) \<times> world" where
  "git_clone args w =
     (case parse_nat (drop 8 (args ! 2)) of
        None \<Rightarrow> ((128, []), w)
      | Some 0 \<Rightarrow> ((128, []), w)
      | Some (Suc n) \<Rightarrow>
          (case remotes w (args ! 4) of
             None \<Rightarrow> ((128, []), w)
           | Some h \<Rightarrow>
               ((0, []),
                w\<lparr>dirs := insert (args ! 5) (dirs w),
                  repos := (repos w)(args ! 5 \<mapsto> cloned_repo (args ! 4) (take (Suc n) h))\<rparr>)))"

text \<open>A command inside the checkout at \<open>dir\<close>; status 128 when there is none.\<close>

definition git_in_repo :: "string list \<Rightarrow> string \<Rightarrow> world \<Rightarrow> (int \<times> string) \<times> world" where
  "git_in_repo args dir w =
     (case repos w dir of
        None \<Rightarrow> ((128, []), w)
      | Some r \<Rightarrow>
          (case git_repo args (\<lambda>p. exists (w\<lparr>cwd := dir\<rparr>) p) (remotes w (origin r)) r of
             (res, r') \<Rightarrow> (res, w\<lparr>repos := (repos w)(dir \<mapsto> r')\<rparr>)))"

text \<open>A git command line (without the name of the executable), run in directory \<open>dir\<close>.\<close>

definition git :: "string list \<Rightarrow> string \<Rightarrow> world \<Rightarrow> (int \<times> string) \<times> world" where
  "git args dir w =
    (if args = [''--version''] then ((0, ''git version 1.9.1'' @ newline), w)
     else if is_clone args then git_clone args w
     else git_in_repo args dir w)"

text \<open>
  Starting a process. The command line goes to the trace. A name that is no program
  raises \<open>OSError\<close>, and so does a \<open>cwd\<close> argument that is no directory; a program
  other than git exits with its fixed status; an invocation of git whose number is in
  \<open>faults\<close> exits with status 1 and changes nothing (a network failure, say).
\<close>

definition run :: "string list \<Rightarrow> string option \<Rightarrow> (int \<times> string) io" where
  "run argv dir =
     (\<lambda>w. let w1 = w\<lparr>trace := trace w @ [argv]\<rparr>;
              d = (case dir of None \<Rightarrow> cwd w | Some p \<Rightarrow> resolve w p) in
        case argv of
          [] \<Rightarrow> (Inl OSError, w1)
        | exe # args \<Rightarrow>
            (case programs w exe of
               None \<Rightarrow> (Inl OSError, w1)
             | Some prog \<Rightarrow>
                 if dir \<noteq> None \<and> d \<notin> dirs w then (Inl OSError, w1)
                 else (case prog of
                         Other rc \<Rightarrow> (Inr (rc, []), w1)
                       | Git \<Rightarrow>
                           if length (trace w) \<in> faults w then (Inr (1, []), w1)
                           else (case git args d w1 of (res, w2) \<Rightarrow> (Inr res, w2)))))"

text \<open>\<open>subprocess.call\<close>, \<open>check_call\<close>, \<open>check_output\<close> and the script's \<open>strip_output\<close>.\<close>

definition subprocess_call :: "string list \<Rightarrow> int io" where
  "subprocess_call argv = bind (run argv None) (\<lambda>(rc, out). return rc)"

definition check_call :: "string list \<Rightarrow> string option \<Rightarrow> unit io" where
  "check_call argv dir =
     bind (run argv dir) (\<lambda>(rc, out). if rc = 0 then return () else raise CalledProcessError)"

definition check_output :: "string list \<Rightarrow> string option \<Rightarrow> string io" where
  "check_output argv dir =
     bind (run argv dir) (\<lambda>(rc, out). if rc = 0 then return out else raise CalledProcessError)"

definition strip_output :: "string list \<Rightarrow> string option \<Rightarrow> string io" where
  "strip_output argv dir = bind (check_output argv dir) (\<lambda>out. return (strip out))"

section \<open>test_git_executable\<close>

text \<open>
  \<^verbatim>\<open>
  try:
      subprocess.call([git_executable, '--version'], stdout=devnull)
  except (OSError,):
      return False
  return True
  \<close>
  The exit status of the call is not looked at.
\<close>

definition test_git_executable :: "string \<Rightarrow> bool io" where
  "test_git_executable git_executable =
     try_except
       (bind (subprocess_call [git_executable, ''--version'']) (\<lambda>_. return True))
       (\<lambda>e. e = OSError)
       (\<lambda>_. return False)"

section \<open>DepsRollConfig\<close>

text \<open>
  The options are what \<open>optparse\<close> hands to \<open>main\<close>; parsing the command line and the
  environment is the library's work and is not modelled. An option that may be absent
  (\<open>None\<close> in Python) is an \<open>option\<close> here.
\<close>

record options =
  opt_verbose :: bool
  opt_save_branches :: bool
  opt_search_depth :: int
  opt_chromium_path :: "string option"
  opt_git_path :: string
  opt_skip_cl_upload :: bool
  opt_bots :: string
  opt_skia_git_path :: "string option"
  opt_revision :: "int option"

record config =
  skia_url :: string
  verbose :: bool
  save_branches :: bool
  search_depth :: int
  chromium_path :: "string option"
  git_exe :: string
  skip_cl_upload :: bool
  cl_bot_list :: "string list"
  skia_git_checkout_path :: "string option"
  default_branch_name :: string

text \<open>
  \<^verbatim>\<open>self.cl_bot_list = [bot for bot in options.bots.split(',') if bot]\<close>
\<close>

definition bot_list :: "string \<Rightarrow> string list" where
  "bot_list bots = filter (\<lambda>bot. bot \<noteq> []) (split CHR '','' bots)"

definition DepsRollConfig :: "options \<Rightarrow> config" where
  "DepsRollConfig opts =
     \<lparr>skia_url = ''https://skia.googlesource.com/skia.git'',
      verbose = opt_verbose opts,
      save_branches = opt_save_branches opts,
      search_depth = opt_search_depth opts,
      chromium_path = opt_chromium_path opts,
      git_exe = opt_git_path opts,
      skip_cl_upload = opt_skip_cl_upload opts,
      cl_bot_list = bot_list (opt_bots opts),
      skia_git_checkout_path = opt_skia_git_path opts,
      default_branch_name = ''autogenerated_deps_roll_branch''\<rparr>"

text \<open>
  \<^verbatim>\<open>self.revision_format = 'git-svn-id: http://skia.googlecode.com/svn/trunk@%d '\<close>,
  applied to a revision.
\<close>

definition svn_marker :: string where
  "svn_marker = ''git-svn-id: http://skia.googlecode.com/svn/trunk@''"

definition revision_format :: "int \<Rightarrow> string" where
  "revision_format revision = svn_marker @ format_d revision @ '' ''"

text \<open>A Python value used as a condition: \<open>None\<close> and the empty string are false.\<close>

definition truthy :: "string option \<Rightarrow> bool" where
  "truthy x = (case x of None \<Rightarrow> False | Some s \<Rightarrow> s \<noteq> [])"

section \<open>create_temp_skia_clone\<close>

text \<open>
  \<^verbatim>\<open>
  skia_dir = tempfile.mkdtemp(prefix='git_skia_tmp_')
  try:
      check_call([git, 'clone', '-q', '--depth=%d' % depth,
                  '--single-branch', config.skia_url, skia_dir])
      return skia_dir
  except (OSError, subprocess.CalledProcessError) as error:
      shutil.rmtree(skia_dir)
      raise error
  \<close>
\<close>

definition create_temp_skia_clone :: "config \<Rightarrow> int \<Rightarrow> string io" where
  "create_temp_skia_clone cfg depth =
     bind (mkdtemp ''git_skia_tmp_'') (\<lambda>skia_dir.
       try_except
         (bind (check_call [git_exe cfg, ''clone'', ''-q'', ''--depth='' @ format_d depth,
                            ''--single-branch'', skia_url cfg, skia_dir] None)
            (\<lambda>_. return skia_dir))
         (\<lambda>e. e = OSError \<or> e = CalledProcessError)
         (\<lambda>error. bind (rmtree skia_dir) (\<lambda>_. raise error)))"

section \<open>find_revision_and_hash\<close>

text \<open>
  \<^verbatim>\<open>'git-svn-id: http://skia.googlecode.com/svn/trunk@([0-9]+) '\<close>: the dots of the
  address are wildcards. The group is the item after the marker.
\<close>

definition svn_format :: regex where
  "svn_format =
     (grep_atom (hd svn_marker),
      map (\<lambda>c. One (grep_atom c)) (tl svn_marker) @ [Plus (Cls digit_chars), One (Lit CHR '' '')])"

definition svn_format_group :: nat where
  "svn_format_group = length svn_marker"

text \<open>\<open>int(text)\<close> for the text of a group of digits.\<close>

definition int_of_digits :: "string \<Rightarrow> int" where
  "int_of_digits s = (case parse_nat s of None \<Rightarrow> 0 | Some n \<Rightarrow> int n)"

text \<open>
  The last test of the function:
  \<^verbatim>\<open>
  if revision < 0  or not git_hash:
      raise DepsRollError('Git hash can not be found.')
  return revision, git_hash
  \<close>
\<close>

definition found :: "int \<Rightarrow> string \<Rightarrow> (int \<times> string) io" where
  "found revision git_hash =
     (if revision < 0 \<or> git_hash = [] then raise (DepsRollError ''Git hash can not be found.'')
      else return (revision, git_hash))"

text \<open>The body of the \<open>try\<close> block once \<open>skia_dir\<close> is known.\<close>

definition locate :: "config \<Rightarrow> int option \<Rightarrow> string \<Rightarrow> (int \<times> string) io" where
  "locate cfg revision skia_dir =
     (case revision of
        None \<Rightarrow>
          bind (check_output [git_exe cfg, ''log'', ''-n'', ''1'', ''--format=format:%B'',
                              ''origin/master''] (Some skia_dir)) (\<lambda>message.
            case search svn_format message of
              None \<Rightarrow> raise (DepsRollError ''Revision number missing from origin/master.'')
            | Some (pre, ps) \<Rightarrow>
                bind (strip_output [git_exe cfg, ''show-ref'', ''origin/master'', ''--hash'']
                        (Some skia_dir)) (\<lambda>git_hash.
                  found (int_of_digits (ps ! svn_format_group)) git_hash))
      | Some target \<Rightarrow>
          bind (strip_output [git_exe cfg, ''log'', ''--grep'', revision_format target,
                              ''--format=format:%H'', ''origin/master''] (Some skia_dir))
            (\<lambda>git_hash. found target git_hash))"

text \<open>
  \<^verbatim>\<open>
  use_temp = False
  depth = 1 if (revision is None) else config.search_depth
  try:
      if config.skia_git_checkout_path:
          skia_dir = config.skia_git_checkout_path
          check_call([git, 'fetch', '-q', 'origin'], cwd=skia_dir)
      else:
          skia_dir = create_temp_skia_clone(config, depth)
          assert skia_dir
          use_temp = True
      ...
  finally:
      if use_temp:
          shutil.rmtree(skia_dir)
  \<close>
  \<open>use_temp\<close> is true exactly from the point where the clone has been made and checked,
  so the \<open>finally\<close> clause removes the directory around the rest of the body only.
\<close>

definition find_revision_and_hash :: "config \<Rightarrow> int option \<Rightarrow> (int \<times> string) io" where
  "find_revision_and_hash cfg revision =
     (let depth = (case revision of None \<Rightarrow> 1 | Some _ \<Rightarrow> search_depth cfg) in
      case (if truthy (skia_git_checkout_path cfg) then skia_git_checkout_path cfg else None) of
        Some skia_dir \<Rightarrow>
          bind (check_call [git_exe cfg, ''fetch'', ''-q'', ''origin''] (Some skia_dir))
            (\<lambda>_. locate cfg revision skia_dir)
      | None \<Rightarrow>
          bind (create_temp_skia_clone cfg depth) (\<lambda>skia_dir.
            if skia_dir = [] then raise AssertionError
            else try_finally (locate cfg revision skia_dir) (rmtree skia_dir)))"

section \<open>GitBranchCLUpload\<close>

text \<open>
  The fields of the object. \<open>_stash\<close> starts as \<open>None\<close> and is only ever used as a
  condition, so it is a boolean that starts false.
\<close>

record txn =
  message :: string
  file_list :: "string list"
  branch :: "string option"
  stashed :: bool
  original_branch :: "string option"
  svn_info :: "string option"
  issue :: "string option"

definition GitBranchCLUpload :: "string \<Rightarrow> string option \<Rightarrow> txn" where
  "GitBranchCLUpload msg set_branch_name =
     \<lparr>message = msg, file_list = [], branch = set_branch_name, stashed = False,
      original_branch = None, svn_info = None, issue = None\<rparr>"

definition stage_for_commit :: "txn \<Rightarrow> string list \<Rightarrow> txn" where
  "stage_for_commit t paths = t\<lparr>file_list := file_list t @ paths\<rparr>"

text \<open>\<^verbatim>\<open>r'Last Changed Rev: ([0-9]+)\W'\<close>\<close>

definition svn_info_regex :: regex where
  "svn_info_regex =
     (Lit CHR ''L'',
      lits ''ast Changed Rev: '' @ [Plus (Cls digit_chars), One (NotCls word_chars)])"

definition svn_info_group :: nat where
  "svn_info_group = length ''Last Changed Rev: ''"

subsection \<open>Entry\<close>

definition branch_exists :: "config \<Rightarrow> string \<Rightarrow> bool io" where
  "branch_exists cfg b =
     bind (subprocess_call [git_exe cfg, ''show-ref'', ''--quiet'', b]) (\<lambda>rc. return (rc = 0))"

definition has_diff :: "config \<Rightarrow> bool io" where
  "has_diff cfg =
     bind (subprocess_call [git_exe cfg, ''diff'', ''--quiet'', ''HEAD'']) (\<lambda>rc. return (rc \<noteq> 0))"

text \<open>
  \<^verbatim>\<open>
  self._stash = has_diff()
  if self._stash:
      check_call([git, 'stash', 'save'])
  try:
      self._original_branch = strip_output([git, 'symbolic-ref', '--short', 'HEAD'])
  except (subprocess.CalledProcessError,):
      self._original_branch = strip_output([git, 'rev-parse', 'HEAD'])
  if not self._branch_name:
      self._branch_name = self._config.default_branch_name
  if branch_exists(self._branch_name):
      check_call([git, 'checkout', '-q', 'master'])
      check_call([git, 'branch', '-q', '-D', self._branch_name])
  check_call([git, 'checkout', '-q', '-b', self._branch_name, 'origin/master'])
  svn_info = subprocess.check_output(['git', 'svn', 'info'])
  svn_info_search = re.search(r'Last Changed Rev: ([0-9]+)\W', svn_info)
  assert svn_info_search
  self._svn_info = svn_info_search.group(1)
  \<close>
  The call of \<open>git svn info\<close> names the program \<open>git\<close>, not the configured one.
\<close>

definition enter :: "config \<Rightarrow> txn \<Rightarrow> txn io" where
  "enter cfg t =
     bind (has_diff cfg) (\<lambda>st.
     bind (if st then check_call [git_exe cfg, ''stash'', ''save''] None else return ()) (\<lambda>_.
     bind (try_except
             (strip_output [git_exe cfg, ''symbolic-ref'', ''--short'', ''HEAD''] None)
             (\<lambda>e. e = CalledProcessError)
             (\<lambda>_. strip_output [git_exe cfg, ''rev-parse'', ''HEAD''] None)) (\<lambda>orig.
     let b = (case branch t of
                None \<Rightarrow> default_branch_name cfg
              | Some name \<Rightarrow> if name = [] then default_branch_name cfg else name) in
     bind (branch_exists cfg b) (\<lambda>ex.
     bind (if ex then
             bind (check_call [git_exe cfg, ''checkout'', ''-q'', ''master''] None) (\<lambda>_.
               check_call [git_exe cfg, ''branch'', ''-q'', ''-D'', b] None)
           else return ()) (\<lambda>_.
     bind (check_call [git_exe cfg, ''checkout'', ''-q'', ''-b'', b, ''origin/master''] None) (\<lambda>_.
     bind (check_output [''git'', ''svn'', ''info''] None) (\<lambda>info.
       case search svn_info_regex info of
         None \<Rightarrow> raise AssertionError
       | Some (pre, ps) \<Rightarrow>
           return (t\<lparr>stashed := st, original_branch := Some orig, branch := Some b,
                     svn_info := Some (ps ! svn_info_group)\<rparr>))))))))"

subsection \<open>Exit\<close>

text \<open>
  \<^verbatim>\<open>
  for filename in self._file_list:
      assert os.path.exists(filename)
      check_call([git, 'add', filename])
  \<close>
\<close>

fun add_all :: "config \<Rightarrow> string list \<Rightarrow> unit io" where
  "add_all cfg [] = return ()"
| "add_all cfg (filename # rest) =
     (\<lambda>w. if \<not> exists w filename then (Inl AssertionError, w)
          else bind (check_call [git_exe cfg, ''add'', filename] None) (\<lambda>_. add_all cfg rest) w)"

definition git_cl :: "config \<Rightarrow> string list" where
  "git_cl cfg =
     [git_exe cfg, ''cl'', ''upload'', ''-f'', ''--cc=skia-team@google.com'', ''--bypass-hooks'',
      ''--bypass-watchlists'']"

text \<open>
  \<^verbatim>\<open>
  git_try = [git, 'cl', 'try', '--revision', self._svn_info]
  git_try.extend([arg for bot in self._config.cl_bot_list for arg in ('-b', bot)])
  \<close>
\<close>

definition git_try :: "config \<Rightarrow> string \<Rightarrow> string list" where
  "git_try cfg info =
     [git_exe cfg, ''cl'', ''try'', ''--revision'', info]
       @ concat (map (\<lambda>bot. [''-b'', bot]) (cl_bot_list cfg))"

text \<open>
  The upload step: the issue descriptor it leaves.
  \<^verbatim>\<open>
  if self._config.skip_cl_upload:
      print ' '.join(git_cl)
      print
      if self._config.cl_bot_list:
          print ' '.join(git_try)
          print
      self.issue = ''
  else:
      if self._config.verbose:
          check_call(git_cl)
          print
      else:
          quiet_check_call(git_cl)
      self.issue = strip_output([git, 'cl', 'issue'])
      if self._config.cl_bot_list:
          if self._config.verbose:
              check_call(git_try)
              print
          else:
              quiet_check_call(git_try)
  \<close>
  \<open>quiet_check_call\<close> is \<open>check_call\<close> with the output thrown away.
\<close>

definition upload :: "config \<Rightarrow> txn \<Rightarrow> string io" where
  "upload cfg t =
     (if skip_cl_upload cfg then
        bind (print (join '' '' (git_cl cfg))) (\<lambda>_.
        bind (print []) (\<lambda>_.
        bind (if cl_bot_list cfg \<noteq> [] then
                bind (need (svn_info t)) (\<lambda>info.
                bind (print (join '' '' (git_try cfg info))) (\<lambda>_. print []))
              else return ()) (\<lambda>_.
        return [])))
      else
        bind (if verbose cfg then bind (check_call (git_cl cfg) None) (\<lambda>_. print [])
              else check_call (git_cl cfg) None) (\<lambda>_.
        bind (strip_output [git_exe cfg, ''cl'', ''issue''] None) (\<lambda>descriptor.
        bind (if cl_bot_list cfg \<noteq> [] then
                bind (need (svn_info t)) (\<lambda>info.
                  if verbose cfg then bind (check_call (git_try cfg info) None) (\<lambda>_. print [])
                  else check_call (git_try cfg info) None)
              else return ()) (\<lambda>_.
        return descriptor))))"

text \<open>
  \<^verbatim>\<open>
  check_call([git, 'commit', '-q', '-m', self._message])
  ...
  # deal with the aftermath of failed executions of this script.
  if self._config.default_branch_name == self._original_branch:
      self._original_branch = 'master'
  check_call([git, 'checkout', '-q', self._original_branch])
  if self._config.default_branch_name == self._branch_name:
      check_call([git, 'branch', '-q', '-D', self._branch_name])
  if self._stash:
      check_call([git, 'stash', 'pop'])
  \<close>
  The arguments \<open>etype\<close>, \<open>value\<close> and \<open>traceback\<close> are not used: the method does the
  same after a body that raised as after one that did not.
\<close>

definition restore_target :: "config \<Rightarrow> txn \<Rightarrow> string option" where
  "restore_target cfg t =
     (if Some (default_branch_name cfg) = original_branch t then Some ''master''
      else original_branch t)"

definition exit :: "config \<Rightarrow> txn \<Rightarrow> txn io" where
  "exit cfg t =
     bind (add_all cfg (file_list t)) (\<lambda>_.
     bind (check_call [git_exe cfg, ''commit'', ''-q'', ''-m'', message t] None) (\<lambda>_.
     bind (upload cfg t) (\<lambda>descriptor.
     bind (need (restore_target cfg t)) (\<lambda>target.
     bind (check_call [git_exe cfg, ''checkout'', ''-q'', target] None) (\<lambda>_.
     bind (if Some (default_branch_name cfg) = branch t then
             bind (need (branch t)) (\<lambda>b. check_call [git_exe cfg, ''branch'', ''-q'', ''-D'', b] None)
           else return ()) (\<lambda>_.
     bind (if stashed t then check_call [git_exe cfg, ''stash'', ''pop''] None else return ()) (\<lambda>_.
     return (t\<lparr>issue := Some descriptor, original_branch := Some target\<rparr>))))))))"

subsection \<open>The with statement\<close>

text \<open>
  \<^verbatim>\<open>with codereview: body\<close>. The body is the caller's code: it may change the world and
  stage paths, and it ends normally or with an error. When \<open>__enter__\<close> raises, neither
  the body nor \<open>__exit__\<close> runs. Otherwise \<open>__exit__\<close> runs after the body on both paths;
  it returns \<open>None\<close>, so an error of the body is raised again after it, unless
  \<open>__exit__\<close> itself raised.
\<close>

type_synonym body = "txn \<Rightarrow> world \<Rightarrow> (error option \<times> txn) \<times> world"

definition with_upload :: "config \<Rightarrow> txn \<Rightarrow> body \<Rightarrow> txn io" where
  "with_upload cfg t body =
     (\<lambda>w. case enter cfg t w of
        (Inl e, w1) \<Rightarrow> (Inl e, w1)
      | (Inr t1, w1) \<Rightarrow>
          (case body t1 w1 of
             ((err, t2), w2) \<Rightarrow>
               (case exit cfg t2 w2 of
                  (Inl e, w3) \<Rightarrow> (Inl e, w3)
                | (Inr t3, w3) \<Rightarrow>
                    (case err of None \<Rightarrow> (Inr t3, w3) | Some e \<Rightarrow> (Inl e, w3)))))"

text \<open>A body that runs one action and then stages paths, as both bodies of the script do.\<close>

definition then_stage :: "unit io \<Rightarrow> string list \<Rightarrow> body" where
  "then_stage action paths =
     (\<lambda>t w. case action w of
        (Inl e, w') \<Rightarrow> ((Some e, t), w')
      | (Inr _, w') \<Rightarrow> ((None, stage_for_commit t paths), w'))"

section \<open>roll_deps\<close>

text \<open>\<^verbatim>\<open>'https?://[^) ]+'\<close>\<close>

definition url_regex :: regex where
  "url_regex =
     (Lit CHR ''h'', lits ''ttp'' @ [Opt (Lit CHR ''s'')] @ lits ''://'' @ [Plus (NotCls '') '')])"

definition created_by :: string where
  "created_by = ''This CL was created by Skia'' @ [CHR 0x27] @ ''s roll_deps.py script.''"

definition whitespace_message :: "string \<Rightarrow> string" where
  "whitespace_message master_hash =
     ''whitespace change '' @ take 8 master_hash @ newline @ newline @ created_by @ newline"

definition roll_message :: "int \<Rightarrow> string \<Rightarrow> string" where
  "roll_message revision descriptor =
     (case search url_regex descriptor of
        Some (pre, ps) \<Rightarrow>
          ''roll skia DEPS to '' @ format_d revision @ newline @ newline @ created_by
            @ newline @ newline @ ''control: '' @ concat ps
      | None \<Rightarrow> ''roll skia DEPS to '' @ format_d revision @ newline @ newline @ created_by)"

text \<open>\<^verbatim>\<open>branch = branch_name(message) if config.save_branches else None\<close>\<close>

definition chosen_branch :: "config \<Rightarrow> string \<Rightarrow> string option" where
  "chosen_branch cfg msg = (if save_branches cfg then Some (branch_name msg) else None)"

text \<open>
  \<^verbatim>\<open>
  whitespace_cl = codereview.issue
  if branch:
      whitespace_cl = '%s\n    branch: %s' % (whitespace_cl, branch)
  \<close>
\<close>

definition annotate :: "string \<Rightarrow> string option \<Rightarrow> string" where
  "annotate descriptor b =
     (if truthy b then descriptor @ newline @ ''    branch: '' @ (case b of Some n \<Rightarrow> n | None \<Rightarrow> [])
      else descriptor)"

text \<open>The part of \<open>roll_deps\<close> inside \<open>try\<close>, run in the consumer checkout.\<close>

definition roll_both :: "config \<Rightarrow> int \<Rightarrow> string \<Rightarrow> (string \<times> string) io" where
  "roll_both cfg revision git_hash =
     bind (check_call [git_exe cfg, ''fetch'', ''-q'', ''origin''] None) (\<lambda>_.
     bind (strip_output [git_exe cfg, ''show-ref'', ''origin/master'', ''--hash''] None)
       (\<lambda>master_hash.
     let msg1 = whitespace_message master_hash; branch1 = chosen_branch cfg msg1 in
     bind (with_upload cfg (GitBranchCLUpload msg1 branch1)
             (then_stage
                (append_file ''build/whitespace_file.txt'' (newline @ ''CONTROL'' @ newline))
                [''build/whitespace_file.txt''])) (\<lambda>codereview1.
     bind (need (issue codereview1)) (\<lambda>issue1.
     let whitespace_cl = annotate issue1 branch1;
         msg2 = roll_message revision issue1;
         branch2 = chosen_branch cfg msg2 in
     bind (with_upload cfg (GitBranchCLUpload msg2 branch2)
             (then_stage (change_skia_deps revision git_hash ''DEPS'') [''DEPS''])) (\<lambda>codereview2.
     bind (need (issue codereview2)) (\<lambda>issue2.
     return (annotate issue2 branch2, whitespace_cl)))))))"

text \<open>
  \<^verbatim>\<open>
  cwd = os.getcwd()
  os.chdir(config.chromium_path)
  try:
      ...
  finally:
      os.chdir(cwd)
  \<close>
\<close>

definition roll_deps :: "config \<Rightarrow> int \<Rightarrow> string \<Rightarrow> (string \<times> string) io" where
  "roll_deps cfg revision git_hash =
     (\<lambda>w. bind (need (chromium_path cfg)) (\<lambda>path.
            bind (chdir path) (\<lambda>_.
              try_finally (roll_both cfg revision git_hash) (chdir (cwd w)))) w)"

section \<open>find_hash_and_roll_deps\<close>

text \<open>\<open>repr\<close> of a byte string, for the \<open>%r\<close> of the first \<open>print\<close>.\<close>

definition repr_char :: "char \<Rightarrow> char \<Rightarrow> string" where
  "repr_char quote c =
     (if c = quote \<or> c = CHR 0x5C then [CHR 0x5C, c]
      else if c = CHR 0x09 then [CHR 0x5C, CHR ''t'']
      else if c = CHR 0x0A then [CHR 0x5C, CHR ''n'']
      else if c = CHR 0x0D then [CHR 0x5C, CHR ''r'']
      else if (of_char c :: nat) < 32 \<or> 127 \<le> (of_char c :: nat) then
        [CHR 0x5C, CHR ''x'', hex_chars ! ((of_char c :: nat) div 16),
         hex_chars ! ((of_char c :: nat) mod 16)]
      else [c])"

definition repr :: "string \<Rightarrow> string" where
  "repr s =
     (let quote = (if CHR 0x27 \<in> set s \<and> CHR 0x22 \<notin> set s then CHR 0x22 else CHR 0x27) in
      [quote] @ concat (map (repr_char quote) s) @ [quote])"

text \<open>
  \<^verbatim>\<open>
  revision, git_hash = find_revision_and_hash(config, revision)
  print 'revision=%r\nhash=%r\n' % (revision, git_hash)
  deps_issue, whitespace_issue = roll_deps(config, revision, git_hash)
  print 'DEPS roll:\n    %s\n' % deps_issue
  print 'Whitespace change:\n    %s\n' % whitespace_issue
  \<close>
\<close>

definition find_hash_and_roll_deps :: "config \<Rightarrow> int option \<Rightarrow> unit io" where
  "find_hash_and_roll_deps cfg revision =
     bind (find_revision_and_hash cfg revision) (\<lambda>(revision, git_hash).
     bind (print (''revision='' @ format_d revision @ newline @ ''hash='' @ repr git_hash
                  @ newline)) (\<lambda>_.
     bind (roll_deps cfg revision git_hash) (\<lambda>(deps_issue, whitespace_issue).
     bind (print (''DEPS roll:'' @ newline @ ''    '' @ deps_issue @ newline)) (\<lambda>_.
     print (''Whitespace change:'' @ newline @ ''    '' @ whitespace_issue @ newline)))))"

section \<open>main\<close>

text \<open>
  \<^verbatim>\<open>
  if not options.chromium_path:
      option_parser.error('Must specify chromium_path.')
  if not os.path.isdir(options.chromium_path):
      option_parser.error('chromium_path must be a directory.')
  if not test_git_executable(options.git_path):
      option_parser.error('Invalid git executable.')
  config = DepsRollConfig(options)
  find_hash_and_roll_deps(config, options.revision)
  \<close>
  \<open>option_parser.error\<close> prints the usage message and exits.
\<close>

definition main :: "options \<Rightarrow> unit io" where
  "main opts =
     (case opt_chromium_path opts of
        None \<Rightarrow> raise (UsageError ''Must specify chromium_path.'')
      | Some path \<Rightarrow>
          if path = [] then raise (UsageError ''Must specify chromium_path.'')
          else (\<lambda>w.
            if \<not> isdir w path then (Inl (UsageError ''chromium_path must be a directory.''), w)
            else bind (test_git_executable (opt_git_path opts)) (\<lambda>good.
                   if \<not> good then raise (UsageError ''Invalid git executable.'')
                   else find_hash_and_roll_deps (DepsRollConfig opts) (opt_revision opts)) w))"

section \<open>A small world to run the script in\<close>

text \<open>
  A consumer checkout at \<open>/chromium\<close> with a four-line manifest, on branch \<open>work\<close> with
  a clean working tree, and the source repository behind its address with three commits,
  the newest first. It is used to run the definitions on concrete inputs.
\<close>

definition manifest_text :: string where
  "manifest_text =
     ''vars = {'' @ [CHR 0x0A] @
     ''  '' @ field rev_key ''11111'' @ [CHR 0x0A] @
     ''  '' @ field hash_key ''0123abc'' @ [CHR 0x0A] @
     ''}'' @ [CHR 0x0A]"

definition skia_history :: "commit list" where
  "skia_history =
     [(''aaaa3333'', ''Fix gm'' @ newline @ newline @ revision_format 12346 @ ''uuid''),
      (''bbbb2222'', ''Add test'' @ newline @ newline @ revision_format 12345 @ ''uuid''),
      (''cccc1111'', ''Start'' @ newline @ newline @ revision_format 12344 @ ''uuid'')]"

definition chromium_repo :: repo where
  "chromium_repo =
     \<lparr>origin = ''https://chromium.example/src.git'',
      upstream = [(''feed0001'', ''tip'')],
      objects = {''feed0001'', ''feed0000''},
      head = ''work'',
      detached = False,
      branches = [''master'' \<mapsto> ''feed0000'', ''work'' \<mapsto> ''feed0000''],
      modified = {},
      index = {},
      stash = [],
      svn_info_text = Some (''Path: .'' @ newline @ ''Last Changed Rev: 250000'' @ newline),
      issue_text = ''Issue number: 42 (https://codereview.example/42)'',
      serial = 0\<rparr>"

definition demo_world :: world where
  "demo_world =
     \<lparr>files = [''/chromium/DEPS'' \<mapsto>
                 \<lparr>content = manifest_text, readable = True, writable = True\<rparr>],
      dirs = {''/chromium'', ''/tmp'', ''/home''},
      cwd = ''/chromium'',
      device_of = (\<lambda>p. 0),
      disk_free = (\<lambda>d. 1000),
      tmp_serial = 0,
      programs = [''git'' \<mapsto> Git],
      faults = {},
      trace = [],
      printed = [],
      repos = [''/chromium'' \<mapsto> chromium_repo],
      remotes = [''https://skia.googlesource.com/skia.git'' \<mapsto> skia_history,
                 ''https://chromium.example/src.git'' \<mapsto> [(''feed0001'', ''tip'')]]\<rparr>"

definition demo_options :: options where
  "demo_options =
     \<lparr>opt_verbose = False, opt_save_branches = False, opt_search_depth = 100,
      opt_chromium_path = Some ''/chromium'', opt_git_path = ''git'',
      opt_skip_cl_upload = False, opt_bots = ''linux,mac'', opt_skia_git_path = None,
      opt_revision = Some 12345\<rparr>"

text \<open>
  The consumer checkout in the middle of a transaction: on the temporary branch, the
  manifest edited and staged. \<open>open_txn\<close> is the transaction object at that point.
\<close>

definition mid_world :: world where
  "mid_world =
     demo_world\<lparr>repos := [''/chromium'' \<mapsto>
        chromium_repo\<lparr>head := ''autogenerated_deps_roll_branch'',
          branches := [''master'' \<mapsto> ''feed0000'', ''work'' \<mapsto> ''feed0000'',
                       ''autogenerated_deps_roll_branch'' \<mapsto> ''feed0001''],
          modified := {''DEPS''}, index := {''DEPS''}\<rparr>]\<rparr>"

definition open_txn :: txn where
  "open_txn =
     \<lparr>message = ''roll'', file_list = [''DEPS''],
      branch = Some ''autogenerated_deps_roll_branch'', stashed = False,
      original_branch = Some ''work'', svn_info = Some ''250000'', issue = None\<rparr>"

text \<open>The same world with the temporary files on a device of their own.\<close>

definition two_devices :: "string \<Rightarrow> nat" where
  "two_devices p = (if take 5 p = ''/tmp/'' then 1 else 0)"

section \<open>Notions used in the statements\<close>

text \<open>
  \<open>issues_only P m\<close>: whatever the world, the action \<open>m\<close> only adds command lines to the
  trace, and each one it adds satisfies \<open>P\<close>.
\<close>

definition issues_only :: "(string list \<Rightarrow> bool) \<Rightarrow> 'a io \<Rightarrow> bool" where
  "issues_only P m \<longleftrightarrow> (\<forall>w. \<exists>new. trace (snd (m w)) = trace w @ new \<and> list_all P new)"

text \<open>A command line that triggers the validation bots.\<close>

definition is_try :: "string list \<Rightarrow> bool" where
  "is_try argv \<longleftrightarrow> take 2 (tl argv) = [''cl'', ''try'']"

text \<open>
  \<open>at_repo g w r\<close>: in world \<open>w\<close> the program \<open>g\<close> is git, no invocation is set to
  fail, and the current directory holds the checkout \<open>r\<close>.
\<close>

definition at_repo :: "string \<Rightarrow> world \<Rightarrow> repo \<Rightarrow> bool" where
  "at_repo g w r \<longleftrightarrow> programs w g = Some Git \<and> faults w = {} \<and> repos w (cwd w) = Some r"

text \<open>
  \<open>moved w w' r'\<close>: world \<open>w'\<close> is \<open>w\<close> with a longer trace, possibly more printed, and
  \<open>r'\<close> as the checkout in the current directory.
\<close>

definition moved :: "world \<Rightarrow> world \<Rightarrow> repo \<Rightarrow> bool" where
  "moved w w' r' \<longleftrightarrow>
     (\<exists>tr pr. w' = w\<lparr>trace := tr, printed := pr, repos := (repos w)(cwd w \<mapsto> r')\<rparr>)"

text \<open>
  What the body of a \<open>with\<close> block must leave alone for the finalization to find the
  checkout as the entry left it: the current directory, the program table, and in the
  checkout \<open>HEAD\<close>, the names of the branches and the stash. In the transaction object
  it may only add to the staged paths.
\<close>

definition keeps_refs :: "string \<Rightarrow> txn \<Rightarrow> world \<Rightarrow> txn \<Rightarrow> world \<Rightarrow> bool" where
  "keeps_refs g t1 w1 t2 w2 \<longleftrightarrow>
     cwd w2 = cwd w1 \<and> programs w2 g = programs w1 g \<and> faults w2 = faults w1 \<and>
     t2 = t1\<lparr>file_list := file_list t2\<rparr> \<and>
     (case (repos w1 (cwd w1), repos w2 (cwd w1)) of
        (Some r1, Some r2) \<Rightarrow>
          head r2 = head r1 \<and> detached r2 = detached r1 \<and>
          dom (branches r2) = dom (branches r1) \<and> stash r2 = stash r1
      | (None, None) \<Rightarrow> True
      | _ \<Rightarrow> False)"

section \<open>Facts about the string operations\<close>

lemma split_from_not_Nil: "split_from sep cur s \<noteq> []"
  by (induction s arbitrary: cur) auto

lemma hd_split_from: "hd (split_from sep cur s) = rev cur @ takeWhile (\<lambda>c. c \<noteq> sep) s"
  by (induction s arbitrary: cur) auto

lemma split_not_Nil: "split sep s \<noteq> []"
  by (simp add: split_def split_from_not_Nil)

lemma hd_split: "hd (split sep s) = takeWhile (\<lambda>c. c \<noteq> sep) s"
  by (simp add: split_def hd_split_from)

lemma set_rstrip: "set (rstrip s) \<subseteq> set s"
proof -
  have "set (dropWhile isspace (rev s)) \<subseteq> set (rev s)"
    by (meson set_dropWhileD subsetI)
  then show ?thesis by (simp add: rstrip_def)
qed

lemma set_lstrip: "set (lstrip s) \<subseteq> set s"
  unfolding lstrip_def by (meson set_dropWhileD subsetI)

lemma set_first_line: "set (hd (split sep s)) \<subseteq> set s"
  unfolding hd_split by (meson set_takeWhileD subsetI)

lemma first_line_no_newline: "sep \<notin> set (hd (split sep s))"
  unfolding hd_split by (induction s) auto

lemma replace_no_space: "a \<noteq> b \<Longrightarrow> a \<notin> set (replace a b s)"
  by (auto simp: replace_def)

lemma set_replace: "set (replace a b s) \<subseteq> insert b (set s)"
  by (auto simp: replace_def)

section \<open>The branch name of a commit message\<close>

lemma branch_name_chars:
  assumes c: "c \<in> set (branch_name m)"
  shows "c = CHR ''_'' \<or> (c \<in> set m \<and> c \<noteq> CHR '' '' \<and> c \<noteq> CHR 0x0A)"
proof -
  let ?l = "hd (split CHR 0x0A (lstrip m))"
  have sp: "c \<noteq> CHR '' ''"
    using c replace_no_space [of "CHR '' ''" "CHR ''_''" "rstrip ?l"]
    by (auto simp: branch_name_def)
  from c have "c \<in> insert CHR ''_'' (set (rstrip ?l))"
    using set_replace [of "CHR '' ''" "CHR ''_''" "rstrip ?l"]
    unfolding branch_name_def by blast
  then consider "c = CHR ''_''" | "c \<in> set (rstrip ?l)" by blast
  then show ?thesis
  proof cases
    case 1
    then show ?thesis by simp
  next
    case 2
    then have l: "c \<in> set ?l" using set_rstrip by blast
    then have "c \<in> set (lstrip m)" using set_first_line by blast
    then have "c \<in> set m" using set_lstrip by blast
    moreover have "c \<noteq> CHR 0x0A"
      using l first_line_no_newline [of "CHR 0x0A" "lstrip m"] by blast
    ultimately show ?thesis using sp by simp
  qed
qed

text \<open>
  C8 (as amended). The branch name of a message holds no space and no line feed, and it
  is the first line of the message \<^emph>\<open>after its leading whitespace has been stripped\<close>,
  with trailing whitespace removed and every space replaced by an underscore. Only spaces
  are replaced: when the only whitespace bytes of the message are spaces and line feeds,
  the branch name holds no whitespace at all.
\<close>

theorem branch_name_shape:
  "CHR '' '' \<notin> set (branch_name m) \<and> CHR 0x0A \<notin> set (branch_name m) \<and>
   branch_name m =
     replace CHR '' '' CHR ''_''
       (rstrip (takeWhile (\<lambda>c. c \<noteq> CHR 0x0A) (lstrip m))) \<and>
   ((\<forall>c \<in> set m. isspace c \<longrightarrow> c = CHR '' '' \<or> c = CHR 0x0A) \<longrightarrow>
      (\<forall>c \<in> set (branch_name m). \<not> isspace c))"
proof -
  have us: "\<not> isspace CHR ''_''" by (simp add: isspace_def)
  have a: "CHR '' '' \<notin> set (branch_name m)"
    using branch_name_chars [of "CHR '' ''" m] by auto
  have b: "CHR 0x0A \<notin> set (branch_name m)"
    using branch_name_chars [of "CHR 0x0A" m] by auto
  have c: "branch_name m =
     replace CHR '' '' CHR ''_''
       (rstrip (takeWhile (\<lambda>c. c \<noteq> CHR 0x0A) (lstrip m)))"
    by (simp add: branch_name_def hd_split)
  have d: "\<not> isspace c"
    if h: "\<forall>c \<in> set m. isspace c \<longrightarrow> c = CHR '' '' \<or> c = CHR 0x0A"
      and c: "c \<in> set (branch_name m)" for c
    using branch_name_chars [OF c] h us by blast
  show ?thesis using a b c d by blast
qed

text \<open>
  The theorem at the message of the DEPS roll, whose only whitespace is spaces and line
  feeds.
\<close>

theorem branch_name_shape_witness:
  "(let m = ''roll skia DEPS to 12345'' @ [CHR 0x0A, CHR 0x0A] @ ''This CL'' in
    list_all (\<lambda>c. isspace c \<longrightarrow> c = CHR '' '' \<or> c = CHR 0x0A) m \<and>
    branch_name m = ''roll_skia_DEPS_to_12345'' \<and>
    list_all (\<lambda>c. \<not> isspace c) (branch_name m))"
  using branch_name_shape [of "''roll skia DEPS to 12345'' @ [CHR 0x0A, CHR 0x0A] @ ''This CL''"]
  by (simp add: branch_name_def lstrip_def rstrip_def replace_def isspace_def split_def)

text \<open>
  The claim as written fails on two counts. A tab inside the first line stays in the
  branch name, which then holds a whitespace byte. And a message that starts with a line
  feed has an empty first line, while its branch name comes from the first line that has
  text.
\<close>

theorem branch_name_counterexample:
  "CHR 0x09 \<in> set (branch_name [CHR ''a'', CHR 0x09, CHR ''b'']) \<and> isspace CHR 0x09 \<and>
   hd (split CHR 0x0A [CHR 0x0A, CHR ''a'', CHR '' '', CHR ''b'']) = [] \<and>
   branch_name [CHR 0x0A, CHR ''a'', CHR '' '', CHR ''b''] = ''a_b''"
  by (simp add: branch_name_def lstrip_def rstrip_def replace_def isspace_def split_def)

section \<open>Facts about matching and substitution\<close>

lemma length_push: "length (push c ps) = (if ps = [] then 1 else length ps)"
  by (cases ps) auto

lemma concat_push: "ps \<noteq> [] \<Longrightarrow> concat (push c ps) = c # concat ps"
  by (cases ps) auto

lemma rmatch_length: "rmatch r s = Some ps \<Longrightarrow> length ps = length r"
  by (induction r s arbitrary: ps rule: rmatch.induct)
     (auto simp: length_push split: if_splits option.splits)

lemma rmatch_prefix: "rmatch r s = Some ps \<Longrightarrow> \<exists>rest. s = concat ps @ rest"
proof (induction r s arbitrary: ps rule: rmatch.induct)
  case (7 a r c cs)
  show ?case
  proof (cases "ok a c \<and> rmatch (Star a # r) cs \<noteq> None")
    case True
    then obtain qs where q: "rmatch (Star a # r) cs = Some qs" by auto
    with True 7 have ps: "ps = push c qs" by simp
    from q have "qs \<noteq> []" using rmatch_length by fastforce
    with ps have "concat ps = c # concat qs" by (simp add: concat_push)
    moreover from 7(1) True q obtain rest where "cs = concat qs @ rest" by blast
    ultimately show ?thesis by simp
  next
    case False
    with 7 show ?thesis by (auto split: if_splits option.splits)
  qed
next
  case (9 a r c cs)
  then obtain qs where ok: "ok a c" and q: "rmatch (Star a # r) cs = Some qs" and ps: "ps = push c qs"
    by (auto split: if_splits)
  from q have "qs \<noteq> []" using rmatch_length by fastforce
  with ps have "concat ps = c # concat qs" by (simp add: concat_push)
  moreover from 9(1) ok q obtain rest where "cs = concat qs @ rest" by blast
  ultimately show ?case by simp
qed (auto split: if_splits option.splits)

lemma match_at_prefix: "match_at p s = Some ps \<Longrightarrow> \<exists>rest. s = concat ps @ rest"
  unfolding match_at_def by (rule rmatch_prefix)

lemma match_at_nonempty: "match_at p s = Some ps \<Longrightarrow> concat ps \<noteq> []"
  unfolding match_at_def by (cases s) (auto split: if_splits)

lemma sub_scan_skip: "sub_scan p repl k s = sub_scan p repl 0 (drop k s)"
proof (induction s arbitrary: k)
  case Nil
  then show ?case by simp
next
  case (Cons c cs)
  then show ?case by (cases k) simp_all
qed

lemma search_from_None:
  "search_from p pre s = None \<longleftrightarrow> (\<forall>i<length s. match_at p (drop i s) = None)"
proof (induction s arbitrary: pre)
  case Nil
  then show ?case by simp
next
  case (Cons c cs)
  show ?case
  proof (cases "match_at p (c # cs)")
    case None
    have "(\<forall>i<length (c # cs). match_at p (drop i (c # cs)) = None)
      \<longleftrightarrow> (\<forall>i<length cs. match_at p (drop i cs) = None)"
      using None by (auto simp: less_Suc_eq_0_disj)
    with None Cons show ?thesis by simp
  next
    case (Some ps)
    then have "\<not> (\<forall>i<length (c # cs). match_at p (drop i (c # cs)) = None)"
      by (auto intro: exI [of _ 0])
    with Some show ?thesis by simp
  qed
qed

lemma sub_scan_no_match:
  "search_from p pre s = None \<Longrightarrow> sub_scan p repl 0 s = s"
  by (induction s arbitrary: pre) (auto split: option.splits)

lemma search_from_Some:
  "search_from p pre s = Some (x, ps) \<Longrightarrow>
     \<exists>a. x = rev pre @ a \<and> a = take (length a) s \<and> length a < length s \<and>
         match_at p (drop (length a) s) = Some ps \<and>
         (\<forall>i<length a. match_at p (drop i s) = None)"
proof (induction s arbitrary: pre)
  case Nil
  then show ?case by simp
next
  case (Cons c cs)
  show ?case
  proof (cases "match_at p (c # cs)")
    case (Some qs)
    with Cons.prems have "x = rev pre" "ps = qs" by auto
    with Some show ?thesis by (intro exI [of _ "[]"]) simp
  next
    case None
    with Cons.prems have "search_from p (c # pre) cs = Some (x, ps)" by simp
    from Cons.IH [OF this] obtain a where a: "x = rev (c # pre) @ a" "a = take (length a) cs"
      "length a < length cs"
      "match_at p (drop (length a) cs) = Some ps" "\<forall>i<length a. match_at p (drop i cs) = None"
      by blast
    have "\<forall>i<length (c # a). match_at p (drop i (c # cs)) = None"
      using None a(5) by (auto simp: less_Suc_eq_0_disj)
    moreover have "c # a = take (length (c # a)) (c # cs)" using a(2) by simp
    ultimately show ?thesis using a
      by (intro exI [of _ "c # a"]) simp
  qed
qed

lemma sub_scan_first:
  assumes none: "\<forall>i<length a. match_at p (drop i (a @ s)) = None"
  shows "sub_scan p repl 0 (a @ s) = a @ sub_scan p repl 0 s"
  using none
proof (induction a)
  case Nil
  then show ?case by simp
next
  case (Cons c a)
  from Cons.prems have "match_at p (c # a @ s) = None" by fastforce
  moreover from Cons.prems have "\<forall>i<length a. match_at p (drop i (a @ s)) = None"
    by fastforce
  ultimately show ?case using Cons.IH by simp
qed

lemma sub_scan_match:
  assumes m: "match_at p s = Some ps"
  shows "sub_scan p repl 0 s = repl @ sub_scan p repl 0 (drop (length (concat ps)) s)"
proof (cases s)
  case Nil
  with m match_at_prefix [OF m] match_at_nonempty [OF m] show ?thesis by simp
next
  case (Cons c cs)
  have "0 < length (concat ps)" using match_at_nonempty [OF m] by simp
  then have "drop (length (concat ps) - 1) cs = drop (length (concat ps)) (c # cs)"
    by (cases "length (concat ps)") simp_all
  with m Cons show ?thesis
    using sub_scan_skip [of p repl "length (concat ps) - 1" cs] by simp
qed

section \<open>Rewriting one line of the manifest\<close>

lemma sub_scan_unfold:
  "sub_scan p repl 0 s =
     (case search p s of
        None \<Rightarrow> s
      | Some (a, ps) \<Rightarrow> a @ repl @ sub_scan p repl 0 (drop (length a + length (concat ps)) s))"
proof (cases "search p s")
  case None
  then show ?thesis using sub_scan_no_match [of p "[]" s repl] by (simp add: search_def)
next
  case (Some r)
  obtain x ps where r: "r = (x, ps)" by (cases r)
  with Some have "search_from p [] s = Some (x, ps)" by (simp add: search_def)
  from search_from_Some [OF this] obtain a where a: "x = a" "a = take (length a) s"
    "match_at p (drop (length a) s) = Some ps" "\<forall>i<length a. match_at p (drop i s) = None"
    by auto
  have s: "s = a @ drop (length a) s" using a(2) by (metis append_take_drop_id)
  have "sub_scan p repl 0 (a @ drop (length a) s) = a @ sub_scan p repl 0 (drop (length a) s)"
    using a(4) s by (intro sub_scan_first) simp
  also have "sub_scan p repl 0 (drop (length a) s)
      = repl @ sub_scan p repl 0 (drop (length (concat ps)) (drop (length a) s))"
    using a(3) by (rule sub_scan_match)
  finally have "sub_scan p repl 0 s
      = a @ repl @ sub_scan p repl 0 (drop (length a + length (concat ps)) s)"
    using s by (simp add: add.commute)
  with Some r a(1) show ?thesis by simp
qed

lemma dec_digits: "set (dec n) \<subseteq> set digit_chars"
proof (induction n rule: dec.induct)
  case (1 n)
  have d: "digit_chars ! k \<in> set digit_chars" if "k < 10" for k
    using that by (intro nth_mem) (simp add: digit_chars_def)
  show ?case
  proof (cases "n < 10")
    case True
    then show ?thesis using d [of n] by (subst dec.simps) simp
  next
    case False
    then show ?thesis using 1 d [of "n mod 10"] by (subst dec.simps) simp
  qed
qed

lemma format_d_chars: "set (format_d i) \<subseteq> insert CHR ''-'' (set digit_chars)"
  using dec_digits by (auto simp: format_d_def)

lemma rev_repl_no_backslash: "CHR 0x5C \<notin> set (deps_regex_rev_repl revision)"
proof -
  have "CHR 0x5C \<notin> insert CHR ''-'' (set digit_chars)" by (simp add: digit_chars_def)
  then have "CHR 0x5C \<notin> set (format_d revision)" using format_d_chars by blast
  then show ?thesis by (simp add: deps_regex_rev_repl_def field_def rev_key_def field_end_def)
qed

lemma hash_repl_no_backslash:
  "CHR 0x5C \<notin> set git_hash \<Longrightarrow> CHR 0x5C \<notin> set (deps_regex_hash_repl git_hash)"
  by (simp add: deps_regex_hash_repl_def field_def hash_key_def field_end_def)

lemma rewrite_line_Some:
  "rewrite_line rr hr l = Some x \<Longrightarrow>
     x = sub_scan deps_regex_hash hr 0 (sub_scan deps_regex_rev rr 0 l)"
  by (auto simp: rewrite_line_def sub_def split: option.splits if_splits)

lemma rewrite_line_total:
  "CHR 0x5C \<notin> set rr \<Longrightarrow> CHR 0x5C \<notin> set hr \<Longrightarrow>
     rewrite_line rr hr l = Some (sub_scan deps_regex_hash hr 0 (sub_scan deps_regex_rev rr 0 l))"
  by (simp add: rewrite_line_def sub_def)

section \<open>Rewriting the manifest file\<close>

lemma lines_from_concat: "concat (lines_from cur s) = rev cur @ s"
  by (induction s arbitrary: cur) auto

lemma concat_readlines: "concat (readlines s) = s"
  by (simp add: readlines_def lines_from_concat)

lemma rewrite_lines_frame:
  "rewrite_lines rr hr temp ls w = (r, w') \<Longrightarrow>
     (\<forall>p. p \<noteq> temp \<longrightarrow> files w' p = files w p) \<and> dirs w' = dirs w \<and> cwd w' = cwd w \<and>
     repos w' = repos w \<and> tmp_serial w' = tmp_serial w \<and> device_of w' = device_of w \<and>
     (files w temp \<noteq> None \<longrightarrow> files w' temp \<noteq> None)"
proof (induction ls arbitrary: w)
  case Nil
  then show ?case by (simp add: return_def)
next
  case (Cons l ls)
  show ?case
  proof (cases "rewrite_line rr hr l")
    case None
    with Cons.prems show ?thesis by (simp add: raise_def)
  next
    case (Some l')
    show ?thesis
    proof (cases "file_write temp l' w")
      case (Pair r1 w1)
      have fr: "(\<forall>p. p \<noteq> temp \<longrightarrow> files w1 p = files w p) \<and> dirs w1 = dirs w \<and> cwd w1 = cwd w \<and>
          repos w1 = repos w \<and> tmp_serial w1 = tmp_serial w \<and> device_of w1 = device_of w \<and>
          (files w temp \<noteq> None \<longrightarrow> files w1 temp \<noteq> None)"
        using Pair by (auto simp: file_write_def split: option.splits if_splits)
      show ?thesis
      proof (cases r1)
        case (Inl e)
        with Cons.prems Some Pair have "w' = w1" by (simp add: bind_def)
        with fr show ?thesis by simp
      next
        case (Inr u)
        with Cons.prems Some Pair have "rewrite_lines rr hr temp ls w1 = (r, w')"
          by (simp add: bind_def)
        from Cons.IH [OF this] fr show ?thesis by simp
      qed
    qed
  qed
qed

lemma rewrite_lines_ok:
  "rewrite_lines rr hr temp ls w = (Inr u, w') \<Longrightarrow> files w temp = Some f \<Longrightarrow>
     files w' temp = Some (f\<lparr>content := content f @ concat (map (rewritten rr hr) ls)\<rparr>)"
proof (induction ls arbitrary: w f)
  case Nil
  then show ?case by (simp add: return_def)
next
  case (Cons l ls)
  from Cons.prems(1) obtain l' where l': "rewrite_line rr hr l = Some l'"
    by (cases "rewrite_line rr hr l") (auto simp: raise_def)
  then have l'_eq: "l' = rewritten rr hr l" by (simp add: rewritten_def rewrite_line_Some)
  obtain r1 w1 where fw: "file_write temp l' w = (r1, w1)" by (cases "file_write temp l' w")
  with Cons.prems(1) l' obtain u1 where r1: "r1 = Inr u1"
    by (cases r1) (auto simp: bind_def)
  with fw Cons.prems(2) have f1: "files w1 temp = Some (f\<lparr>content := content f @ l'\<rparr>)"
    by (auto simp: file_write_def split: if_splits)
  from Cons.prems(1) l' fw r1 have "rewrite_lines rr hr temp ls w1 = (Inr u, w')"
    by (simp add: bind_def)
  from Cons.IH [OF this f1] show ?case by (simp add: l'_eq)
qed

lemma NamedTemporaryFile_cases:
  "NamedTemporaryFile prefix w = (r, w1) \<Longrightarrow>
     (r = Inl IOError \<and> w1 = w) \<or>
     (r = Inr (temp_name prefix w) \<and> files w (temp_name prefix w) = None \<and>
      temp_name prefix w \<notin> dirs w \<and>
      w1 = w\<lparr>files := (files w)(temp_name prefix w \<mapsto>
                 \<lparr>content = [], readable = True, writable = True\<rparr>),
             tmp_serial := Suc (tmp_serial w)\<rparr>)"
  by (auto simp: NamedTemporaryFile_def Let_def split: if_splits)

lemma rewrite_to_temp_unfold:
  "rewrite_to_temp revision git_hash depspath w =
     (case NamedTemporaryFile ''skia_DEPS_ROLL_tmp_'' w of
        (Inl e, w1) \<Rightarrow> (Inl e, w1)
      | (Inr t, w1) \<Rightarrow>
          (case open_read depspath w1 of
             (Inl e, w2) \<Rightarrow> (Inl e, w2)
           | (Inr c, w2) \<Rightarrow>
               (case rewrite_lines (deps_regex_rev_repl revision) (deps_regex_hash_repl git_hash)
                       t (readlines c) w2 of
                  (Inl e, w3) \<Rightarrow> (Inl e, w3)
                | (Inr u, w3) \<Rightarrow> (Inr t, w3))))"
  by (simp add: rewrite_to_temp_def bind_def try_finally_def return_def
      split: prod.splits sum.splits)

lemma change_skia_deps_split:
  "change_skia_deps revision git_hash depspath =
     bind (rewrite_to_temp revision git_hash depspath) (\<lambda>t. shutil_move t depspath)"
  by (rule ext)
     (simp add: change_skia_deps_def rewrite_to_temp_def bind_def try_finally_def return_def
      split: prod.splits sum.splits)

lemma change_skia_deps_unfold:
  "change_skia_deps revision git_hash depspath w =
     (case NamedTemporaryFile ''skia_DEPS_ROLL_tmp_'' w of
        (Inl e, w1) \<Rightarrow> (Inl e, w1)
      | (Inr t, w1) \<Rightarrow>
          (case open_read depspath w1 of
             (Inl e, w2) \<Rightarrow> (Inl e, w2)
           | (Inr c, w2) \<Rightarrow>
               (case rewrite_lines (deps_regex_rev_repl revision) (deps_regex_hash_repl git_hash)
                       t (readlines c) w2 of
                  (Inl e, w3) \<Rightarrow> (Inl e, w3)
                | (Inr u, w3) \<Rightarrow> shutil_move t depspath w3)))"
  by (simp add: change_skia_deps_def bind_def try_finally_def return_def
      split: prod.splits sum.splits)

lemma open_read_cases:
  "open_read path w = (r, w') \<Longrightarrow>
     w' = w \<and>
     ((r = Inl IOError \<and>
        (resolve w path \<in> dirs w \<or> files w (resolve w path) = None \<or>
         (\<exists>f. files w (resolve w path) = Some f \<and> \<not> readable f))) \<or>
      (\<exists>f. r = Inr (content f) \<and> files w (resolve w path) = Some f \<and> readable f \<and>
           resolve w path \<notin> dirs w))"
  by (auto simp: open_read_def split: if_splits option.splits)

text \<open>
  The outcome of the function up to the move, path by path: \<open>T\<close> is the name of the
  temporary file and \<open>P\<close> the path of the manifest.
\<close>

lemma rewrite_to_temp_outcome:
  assumes run: "rewrite_to_temp revision git_hash depspath w = (r, w')"
  defines "T \<equiv> temp_name ''skia_DEPS_ROLL_tmp_'' w"
    and "P \<equiv> resolve w depspath"
    and "rr \<equiv> deps_regex_rev_repl revision"
    and "hr \<equiv> deps_regex_hash_repl git_hash"
  shows "(r = Inl IOError \<and> w' = w \<and> (files w T \<noteq> None \<or> T \<in> dirs w)) \<or>
    (files w T = None \<and> T \<notin> dirs w \<and> dirs w' = dirs w \<and> cwd w' = cwd w \<and>
     device_of w' = device_of w \<and> files w' T \<noteq> None \<and>
     (\<forall>p. p \<noteq> T \<longrightarrow> files w' p = files w p) \<and>
      ((r = Inl IOError \<and> P \<noteq> T \<and>
         (P \<in> dirs w \<or> files w P = None \<or> (\<exists>f. files w P = Some f \<and> \<not> readable f))) \<or>
       (\<exists>e. r = Inl e \<and> P \<noteq> T \<and> P \<notin> dirs w \<and> (\<exists>f. files w P = Some f \<and> readable f)) \<or>
       (\<exists>c. r = Inr T \<and> P \<notin> dirs w \<and>
         (if P = T then c = [] else (\<exists>f. files w P = Some f \<and> readable f \<and> c = content f)) \<and>
         files w' T = Some \<lparr>content = concat (map (rewritten rr hr) (readlines c)),
                            readable = True, writable = True\<rparr>)))"
proof -
  obtain r1 w1 where nt: "NamedTemporaryFile ''skia_DEPS_ROLL_tmp_'' w = (r1, w1)"
    by (cases "NamedTemporaryFile ''skia_DEPS_ROLL_tmp_'' w")
  from NamedTemporaryFile_cases [OF nt]
  consider (taken) "r1 = Inl IOError" "w1 = w"
    | (made) "r1 = Inr T" "files w T = None" "T \<notin> dirs w"
        "w1 = w\<lparr>files := (files w)(T \<mapsto> \<lparr>content = [], readable = True, writable = True\<rparr>),
               tmp_serial := Suc (tmp_serial w)\<rparr>"
    unfolding T_def by auto
  then show ?thesis
  proof cases
    case taken
    with nt have tk: "files w T \<noteq> None \<or> T \<in> dirs w"
      unfolding T_def by (auto simp: NamedTemporaryFile_def Let_def split: if_splits)
    from run nt taken have "r = Inl IOError \<and> w' = w"
      by (simp add: rewrite_to_temp_unfold)
    with tk show ?thesis by blast
  next
    case made
    have P1: "resolve w1 depspath = P" unfolding P_def using made(4) by (simp add: resolve_def)
    have d1: "dirs w1 = dirs w" "cwd w1 = cwd w" "device_of w1 = device_of w"
      using made(4) by simp_all
    have f1: "files w1 = (files w)(T \<mapsto> \<lparr>content = [], readable = True, writable = True\<rparr>)"
      using made(4) by simp
    obtain r2 w2 where op: "open_read depspath w1 = (r2, w2)" by (cases "open_read depspath w1")
    from open_read_cases [OF op] have w2: "w2 = w1" by blast
    from open_read_cases [OF op]
    consider (noopen) "r2 = Inl IOError"
        "P \<in> dirs w1 \<or> files w1 P = None \<or> (\<exists>f. files w1 P = Some f \<and> \<not> readable f)"
      | (opened) f where "r2 = Inr (content f)" "files w1 P = Some f" "readable f" "P \<notin> dirs w1"
      unfolding P1 by blast
    then show ?thesis
    proof cases
      case noopen
      from run nt made(1) op noopen(1) w2 have res: "r = Inl IOError" "w' = w1"
        by (simp_all add: rewrite_to_temp_unfold)
      have PT: "P \<noteq> T"
      proof
        assume "P = T"
        with noopen(2) f1 d1 made(3) show False by auto
      qed
      with noopen(2) f1 d1
      have "P \<in> dirs w \<or> files w P = None \<or> (\<exists>f. files w P = Some f \<and> \<not> readable f)"
        by auto
      with res f1 d1 PT made(2,3) show ?thesis by auto
    next
      case opened
      obtain r3 w3 where rl: "rewrite_lines rr hr T (readlines (content f)) w1 = (r3, w3)"
        by (cases "rewrite_lines rr hr T (readlines (content f)) w1")
      note fr = rewrite_lines_frame [OF rl]
      have T3: "files w3 T \<noteq> None" using fr f1 by simp
      have oth3: "\<forall>p. p \<noteq> T \<longrightarrow> files w3 p = files w p" using fr f1 by simp
      have fr3: "dirs w3 = dirs w" "cwd w3 = cwd w" "device_of w3 = device_of w"
        using fr d1 by simp_all
      show ?thesis
      proof (cases r3)
        case (Inl e)
        from run nt made(1) op opened(1) w2 rl Inl have res: "r = Inl e" "w' = w3"
          by (simp_all add: rewrite_to_temp_unfold rr_def hr_def)
        have PT: "P \<noteq> T"
        proof
          assume "P = T"
          with opened(2) f1 have "content f = []" by auto
          with rl Inl show False by (simp add: readlines_def return_def)
        qed
        with opened f1 d1 have "P \<notin> dirs w \<and> (\<exists>f. files w P = Some f \<and> readable f)" by auto
        with res T3 oth3 fr3 PT made(2,3) show ?thesis by blast
      next
        case (Inr u)
        from run nt made(1) op opened(1) w2 rl Inr
        have res: "r = Inr T" "w' = w3"
          by (simp_all add: rewrite_to_temp_unfold rr_def hr_def)
        have T3c: "files w3 T = Some \<lparr>content = concat (map (rewritten rr hr) (readlines (content f))),
              readable = True, writable = True\<rparr>"
          using rewrite_lines_ok [OF rl [unfolded Inr], of "\<lparr>content = [], readable = True, writable = True\<rparr>"]
            f1 by simp
        have c: "if P = T then content f = [] else (\<exists>g. files w P = Some g \<and> readable g \<and> content f = content g)"
          using opened(2,3) f1 by auto
        have Pdw: "P \<notin> dirs w" using opened(4) d1 by simp
        have "\<exists>c. r = Inr T \<and> P \<notin> dirs w \<and>
           (if P = T then c = [] else (\<exists>f. files w P = Some f \<and> readable f \<and> c = content f)) \<and>
           files w' T = Some \<lparr>content = concat (map (rewritten rr hr) (readlines c)),
                            readable = True, writable = True\<rparr>"
          using res c T3c Pdw by (intro exI [of _ "content f"]) simp
        with res T3 oth3 fr3 made(2,3) show ?thesis by blast
      qed
    qed
  qed
qed

text \<open>
  Moving a file onto a path that is no directory. Within one device the move cannot fail.
  Between two devices it can: then the source is still there, and nothing but the target
  has changed.
\<close>

lemma move_file_cases:
  assumes src: "files w s = Some f" and nd: "d \<notin> dirs w"
    and mv: "move_file s d w = (r, w')"
  shows "dirs w' = dirs w \<and> cwd w' = cwd w \<and> repos w' = repos w \<and>
     ((r = Inr () \<and> files w' = ((files w)(s := None))(d \<mapsto> f)) \<or>
      (device_of w s \<noteq> device_of w d \<and> (\<exists>e. r = Inl e) \<and> files w' s = Some f \<and>
       (\<forall>p. p \<noteq> d \<longrightarrow> files w' p = files w p)))"
proof (cases "device_of w s = device_of w d")
  case True
  with src nd mv show ?thesis
    by (auto simp: move_file_def try_except_def rename_def)
next
  case False
  then have sd: "s \<noteq> d" by auto
  from False src nd have rn: "rename s d w = (Inl OSError, w)"
    by (simp add: rename_def)
  obtain r1 w1 where cp: "copy2 s d w = (r1, w1)" by (cases "copy2 s d w")
  show ?thesis
  proof (cases r1)
    case (Inl e)
    with mv rn cp have res: "r = Inl e" "w' = w1"
      by (simp_all add: move_file_def try_except_def bind_def)
    from cp src sd have "dirs w1 = dirs w \<and> cwd w1 = cwd w \<and> repos w1 = repos w \<and>
        files w1 s = Some f \<and> (\<forall>p. p \<noteq> d \<longrightarrow> files w1 p = files w p)"
      by (auto simp: copy2_def Let_def split: if_splits)
    with res False show ?thesis by auto
  next
    case (Inr u)
    with cp src sd nd have w1: "files w1 = (files w)(d \<mapsto> f)" "dirs w1 = dirs w"
      "cwd w1 = cwd w" "repos w1 = repos w"
      by (auto simp: copy2_def Let_def split: if_splits)
    from mv rn cp Inr have "unlink s w1 = (r, w')"
      by (simp add: move_file_def try_except_def bind_def)
    with w1 sd src have "r = Inr ()" "files w' = ((files w)(d \<mapsto> f))(s := None)"
      "dirs w' = dirs w" "cwd w' = cwd w" "repos w' = repos w"
      by (auto simp: unlink_def)
    with sd show ?thesis by (auto simp: fun_upd_twist)
  qed
qed

lemma shutil_move_cases:
  assumes src: "files w s = Some f" and ns: "s \<notin> dirs w" and abs: "resolve w s = s"
    and nd: "resolve w dst \<notin> dirs w"
    and mv: "shutil_move s dst w = (r, w')"
  shows "dirs w' = dirs w \<and> cwd w' = cwd w \<and>
     ((r = Inr () \<and> files w' = ((files w)(s := None))(resolve w dst \<mapsto> f)) \<or>
      (device_of w s \<noteq> device_of w (resolve w dst) \<and> (\<exists>e. r = Inl e) \<and> files w' s = Some f \<and>
       (\<forall>p. p \<noteq> resolve w dst \<longrightarrow> files w' p = files w p)))"
proof -
  obtain r1 w1 where m: "move_file s (resolve w dst) w = (r1, w1)"
    by (cases "move_file s (resolve w dst) w")
  note c = move_file_cases [OF src nd m]
  have nc: "dirs (note_change dst w1) = dirs w1" "cwd (note_change dst w1) = cwd w1"
    "files (note_change dst w1) = files w1"
    by (simp_all add: note_change_def split: option.splits)
  from mv m ns nd abs have "r = r1"
    "w' = (if files w1 (resolve w dst) = files w (resolve w dst) then w1 else note_change dst w1)"
    by (simp_all add: shutil_move_def Let_def)
  with c nc show ?thesis by (cases "files w1 (resolve w dst) = files w (resolve w dst)") simp_all
qed

text \<open>The outcome of change_skia_deps, path by path.\<close>

lemma change_skia_deps_outcome:
  assumes run: "change_skia_deps revision git_hash depspath w = (r, w')"
  defines "T \<equiv> temp_name ''skia_DEPS_ROLL_tmp_'' w"
    and "P \<equiv> resolve w depspath"
    and "rr \<equiv> deps_regex_rev_repl revision"
    and "hr \<equiv> deps_regex_hash_repl git_hash"
  shows "(r = Inl IOError \<and> w' = w \<and> (files w T \<noteq> None \<or> T \<in> dirs w)) \<or>
    (files w T = None \<and> T \<notin> dirs w \<and>
      ((r = Inl IOError \<and> files w' T \<noteq> None \<and> (\<forall>p. p \<noteq> T \<longrightarrow> files w' p = files w p) \<and>
         P \<noteq> T \<and>
         (P \<in> dirs w \<or> files w P = None \<or> (\<exists>f. files w P = Some f \<and> \<not> readable f))) \<or>
       (\<exists>e. r = Inl e \<and> files w' T \<noteq> None \<and> (\<forall>p. p \<noteq> T \<longrightarrow> files w' p = files w p) \<and>
         P \<noteq> T \<and> P \<notin> dirs w \<and> (\<exists>f. files w P = Some f \<and> readable f)) \<or>
       (\<exists>e. r = Inl e \<and> files w' T \<noteq> None \<and> device_of w T \<noteq> device_of w P \<and>
         (\<forall>p. p \<noteq> T \<and> p \<noteq> P \<longrightarrow> files w' p = files w p) \<and>
         P \<noteq> T \<and> P \<notin> dirs w \<and> (\<exists>f. files w P = Some f \<and> readable f)) \<or>
       (\<exists>u c. r = Inr u \<and> P \<notin> dirs w \<and>
         (if P = T then c = [] else (\<exists>f. files w P = Some f \<and> readable f \<and> c = content f)) \<and>
         files w' P = Some \<lparr>content = concat (map (rewritten rr hr) (readlines c)),
                            readable = True, writable = True\<rparr> \<and>
         (P \<noteq> T \<longrightarrow> files w' T = None) \<and>
         (\<forall>p. p \<noteq> T \<and> p \<noteq> P \<longrightarrow> files w' p = files w p))))"
proof -
  obtain r1 w1 where rt: "rewrite_to_temp revision git_hash depspath w = (r1, w1)"
    by (cases "rewrite_to_temp revision git_hash depspath w")
  note o = rewrite_to_temp_outcome [OF rt, folded T_def P_def rr_def hr_def]
  show ?thesis
  proof (cases r1)
    case (Inl e)
    with run rt have "r = Inl e" "w' = w1" by (simp_all add: change_skia_deps_split bind_def)
    with o Inl show ?thesis by auto
  next
    case (Inr t)
    with o obtain c where ok: "files w T = None" "T \<notin> dirs w" "dirs w1 = dirs w" "cwd w1 = cwd w"
      "device_of w1 = device_of w" "\<forall>p. p \<noteq> T \<longrightarrow> files w1 p = files w p" "t = T"
      "P \<notin> dirs w"
      "if P = T then c = [] else (\<exists>f. files w P = Some f \<and> readable f \<and> c = content f)"
      "files w1 T = Some \<lparr>content = concat (map (rewritten rr hr) (readlines c)),
                            readable = True, writable = True\<rparr>"
      by auto
    let ?new = "\<lparr>content = concat (map (rewritten rr hr) (readlines c)),
                            readable = True, writable = True\<rparr>"
    from run rt Inr ok(7) have mv: "shutil_move T depspath w1 = (r, w')"
      by (simp add: change_skia_deps_split bind_def)
    have rs: "resolve w1 T = T" "resolve w1 depspath = P"
      using ok(4) by (simp_all add: resolve_def T_def temp_name_def P_def)
    have nd: "T \<notin> dirs w1" "resolve w1 depspath \<notin> dirs w1" using ok rs by simp_all
    from shutil_move_cases [OF ok(10) nd(1) rs(1) nd(2) mv, unfolded rs]
    consider (moved) "r = Inr ()" "files w' = ((files w1)(T := None))(P \<mapsto> ?new)"
      | (failed) e where "device_of w1 T \<noteq> device_of w1 P" "r = Inl e" "files w' T = Some ?new"
          "\<forall>p. p \<noteq> P \<longrightarrow> files w' p = files w1 p"
      by blast
    then show ?thesis
    proof cases
      case moved
      have "\<exists>u c. r = Inr u \<and> P \<notin> dirs w \<and>
         (if P = T then c = [] else (\<exists>f. files w P = Some f \<and> readable f \<and> c = content f)) \<and>
         files w' P = Some \<lparr>content = concat (map (rewritten rr hr) (readlines c)),
                            readable = True, writable = True\<rparr> \<and>
         (P \<noteq> T \<longrightarrow> files w' T = None) \<and>
         (\<forall>p. p \<noteq> T \<and> p \<noteq> P \<longrightarrow> files w' p = files w p)"
        using moved ok by (intro exI [of _ "()"] exI [of _ c]) simp
      with ok(1,2) show ?thesis by blast
    next
      case failed
      from failed(1) have PT: "P \<noteq> T" by auto
      with ok(9) have "\<exists>f. files w P = Some f \<and> readable f" by auto
      moreover have "\<forall>p. p \<noteq> T \<and> p \<noteq> P \<longrightarrow> files w' p = files w p"
        using failed(4) ok(6) by simp
      moreover have "device_of w T \<noteq> device_of w P" using failed(1) ok(5) by simp
      ultimately have "\<exists>e. r = Inl e \<and> files w' T \<noteq> None \<and> device_of w T \<noteq> device_of w P \<and>
         (\<forall>p. p \<noteq> T \<and> p \<noteq> P \<longrightarrow> files w' p = files w p) \<and>
         P \<noteq> T \<and> P \<notin> dirs w \<and> (\<exists>f. files w P = Some f \<and> readable f)"
        using failed(2,3) PT ok(8) by simp
      with ok(1,2) show ?thesis by blast
    qed
  qed
qed

section \<open>The claims about the manifest editor\<close>

text \<open>The definitions that \<open>simp\<close> unfolds to run the editor on a concrete world.\<close>

lemmas manifest_eval = change_skia_deps_unfold NamedTemporaryFile_def temp_name_def open_read_def
  resolve_def readlines_def rewrite_line_def sub_def shutil_move_def note_change_def
  move_file_def rename_def copy2_def unlink_def try_except_def two_devices_def
  file_write_def bind_def return_def raise_def
  deps_regex_rev_repl_def deps_regex_hash_repl_def
  field_def rev_key_def hash_key_def field_end_def format_d_def dec.simps digit_chars_def
  hex_chars_def deps_regex_rev_def deps_regex_hash_def lits_def match_at_def
  demo_world_def manifest_text_def Let_def

lemma rewritten_unmatched:
  assumes "search deps_regex_rev l = None" and "search deps_regex_hash l = None"
  shows "rewritten rr hr l = l"
  using assms sub_scan_no_match [of deps_regex_rev "[]" l rr]
    sub_scan_no_match [of deps_regex_hash "[]" l hr]
  by (simp add: rewritten_def search_def)

text \<open>
  C3. When the editor succeeds on a manifest, the new manifest is the concatenation of
  one output per input line (the input lines being the old manifest cut after each line
  feed), and the output for a line that matches neither the revision pattern nor the hash
  pattern is that line, byte for byte.
\<close>

theorem unmatched_lines_kept:
  assumes run: "change_skia_deps revision git_hash depspath w = (Inr u, w')"
    and src: "files w (resolve w depspath) = Some f"
  shows "\<exists>f' outs.
      files w' (resolve w depspath) = Some f' \<and> content f' = concat outs \<and>
      concat (readlines (content f)) = content f \<and>
      list_all2
        (\<lambda>line out. search deps_regex_rev line = None \<and> search deps_regex_hash line = None
            \<longrightarrow> out = line)
        (readlines (content f)) outs"
proof -
  let ?rr = "deps_regex_rev_repl revision" and ?hr = "deps_regex_hash_repl git_hash"
  let ?outs = "map (rewritten ?rr ?hr) (readlines (content f))"
  from change_skia_deps_outcome [OF run] src
  have "files w' (resolve w depspath) =
      Some \<lparr>content = concat ?outs, readable = True, writable = True\<rparr>"
    by (auto split: if_splits)
  moreover have "list_all2
        (\<lambda>line out. search deps_regex_rev line = None \<and> search deps_regex_hash line = None
            \<longrightarrow> out = line)
        (readlines (content f)) ?outs"
    by (simp add: list_all2_map2 list_all2_same rewritten_unmatched)
  ultimately show ?thesis using concat_readlines by fastforce
qed

text \<open>
  The theorem at the demonstration manifest: its first line matches neither pattern and
  is the first line of the new manifest.
\<close>

theorem unmatched_lines_kept_witness:
  "\<exists>w' f'. change_skia_deps 12345 ''abc'' ''DEPS'' demo_world = (Inr (), w') \<and>
     files w' ''/chromium/DEPS'' = Some f' \<and>
     take 9 (content f') = ''vars = {'' @ [CHR 0x0A] \<and>
     search deps_regex_rev (''vars = {'' @ [CHR 0x0A]) = None \<and>
     search deps_regex_hash (''vars = {'' @ [CHR 0x0A]) = None"
proof -
  let ?w = "snd (change_skia_deps 12345 ''abc'' ''DEPS'' demo_world)"
  have "fst (change_skia_deps 12345 ''abc'' ''DEPS'' demo_world) = Inr ()"
    by (simp add: manifest_eval)
  then have run: "change_skia_deps 12345 ''abc'' ''DEPS'' demo_world = (Inr (), ?w)"
    by (metis prod.collapse)
  have src: "files demo_world (resolve demo_world ''DEPS'')
      = Some \<lparr>content = manifest_text, readable = True, writable = True\<rparr>"
    by (simp add: demo_world_def resolve_def)
  from unmatched_lines_kept [OF run src] obtain f' where
    "files ?w (resolve demo_world ''DEPS'') = Some f'" by blast
  then have "files ?w ''/chromium/DEPS'' = Some f'" by (simp add: demo_world_def resolve_def)
  moreover have "map_option (take 9 \<circ> content) (files ?w ''/chromium/DEPS'')
      = Some (''vars = {'' @ [CHR 0x0A])"
    by (simp add: manifest_eval)
  moreover have "search deps_regex_rev (''vars = {'' @ [CHR 0x0A]) = None"
    "search deps_regex_hash (''vars = {'' @ [CHR 0x0A]) = None"
    by (simp_all add: search_def manifest_eval)
  ultimately show ?thesis using run by auto
qed

text \<open>
  C4 (as amended). On every line the editor replaces \<^emph>\<open>every\<close> match of the revision
  pattern and then every match of the hash pattern, not just the first of each: the
  result of a substitution is the text before the leftmost match, the replacement, and
  the substitution applied again to the rest of the line after that match. (The hash is
  any text without a backslash.)
\<close>

theorem rewrite_line_every_match:
  assumes "CHR 0x5C \<notin> set git_hash"
  shows "rewrite_line (deps_regex_rev_repl revision) (deps_regex_hash_repl git_hash) line =
       Some (rewritten (deps_regex_rev_repl revision) (deps_regex_hash_repl git_hash) line) \<and>
     (\<forall>p repl s. sub_scan p repl 0 s =
        (case search p s of
           None \<Rightarrow> s
         | Some (a, ps) \<Rightarrow>
             a @ repl @ sub_scan p repl 0 (drop (length a + length (concat ps)) s)))"
  using rewrite_line_total [OF rev_repl_no_backslash hash_repl_no_backslash [OF assms]]
    sub_scan_unfold by (simp add: rewritten_def)

text \<open>The theorem at a line with two revision fields: both are rewritten.\<close>

theorem rewrite_line_every_match_witness:
  "CHR 0x5C \<notin> set ''abc'' \<and>
   rewrite_line (deps_regex_rev_repl 5) (deps_regex_hash_repl ''abc'')
     (field rev_key ''1'' @ ''  '' @ field rev_key ''2'') =
     Some (field rev_key ''5'' @ ''  '' @ field rev_key ''5'')"
proof -
  have h: "CHR 0x5C \<notin> set ''abc''" by simp
  have "rewritten (deps_regex_rev_repl 5) (deps_regex_hash_repl ''abc'')
     (field rev_key ''1'' @ ''  '' @ field rev_key ''2'') = field rev_key ''5'' @ ''  '' @ field rev_key ''5''"
    by (simp add: rewritten_def manifest_eval)
  with rewrite_line_every_match [OF h, of 5 "field rev_key ''1'' @ ''  '' @ field rev_key ''2''"]
  show ?thesis by simp
qed

text \<open>
  The claim as written fails on a line with two revision fields: the second one does not
  stay as it was.
\<close>

theorem one_substitution_counterexample:
  "rewrite_line (deps_regex_rev_repl 5) (deps_regex_hash_repl ''abc'')
     (field rev_key ''1'' @ ''  '' @ field rev_key ''2'') =
     Some (field rev_key ''5'' @ ''  '' @ field rev_key ''5'') \<and>
   field rev_key ''5'' \<noteq> field rev_key ''2''"
  by (simp add: manifest_eval)




text \<open>
  With the temporary files on a device of their own, the move is a copy into the
  manifest in place. A manifest that may not be written then makes the function fail
  with the manifest unchanged, and a device that fills up during the copy leaves a
  manifest cut short. The amended claim says nothing about the move between two devices.
\<close>

lemma move_between_devices:
  "(let w = demo_world\<lparr>device_of := two_devices,
              files := [''/chromium/DEPS'' \<mapsto>
                \<lparr>content = manifest_text, readable = True, writable = False\<rparr>]\<rparr>;
       out = change_skia_deps 12345 ''abc'' ''DEPS'' w in
    fst out = Inl IOError \<and> files (snd out) ''/chromium/DEPS'' = files w ''/chromium/DEPS'') \<and>
   (let w = demo_world\<lparr>device_of := two_devices, disk_free := (\<lambda>d. if d = 0 then 3 else 1000)\<rparr>;
       out = change_skia_deps 12345 ''abcdefabcdef'' ''DEPS'' w in
    fst out = Inl IOError \<and>
    map_option (length \<circ> content) (files w ''/chromium/DEPS'') = Some 65 \<and>
    map_option (length \<circ> content) (files (snd out) ''/chromium/DEPS'') = Some 68 \<and>
    map_option (length \<circ> content) (files (snd out) ''/tmp/skia_DEPS_ROLL_tmp_0'') = Some 70)"
  by (simp add: manifest_eval)

text \<open>
  C7, at the input where the code departs from it. The temporary manifest is created with
  \<open>delete=False\<close> and the \<open>finally\<close> clause only closes it: when the source path does not
  exist, the editor raises \<open>IOError\<close> and the temporary file is still there.
\<close>

theorem temp_manifest_left_behind:
  "(let out = change_skia_deps 12345 ''abc'' ''NOPE'' demo_world in
    files demo_world ''/tmp/skia_DEPS_ROLL_tmp_0'' = None \<and>
    fst out = Inl IOError \<and>
    files (snd out) ''/tmp/skia_DEPS_ROLL_tmp_0''
      = Some \<lparr>content = [], readable = True, writable = True\<rparr>)"
  by (simp add: manifest_eval)

section \<open>Facts about processes\<close>

lemma git_clone_trace: "trace (snd (git_clone args w)) = trace w"
  by (simp add: git_clone_def split: option.splits nat.splits)

lemma git_in_repo_trace: "trace (snd (git_in_repo args d w)) = trace w"
  by (simp add: git_in_repo_def split: option.splits prod.splits)

lemma git_trace: "trace (snd (git args d w)) = trace w"
  by (simp add: git_def git_clone_trace git_in_repo_trace)

lemma run_trace: "run argv dir w = (r, w') \<Longrightarrow> trace w' = trace w @ [argv]"
proof -
  assume a: "run argv dir w = (r, w')"
  let ?w1 = "w\<lparr>trace := trace w @ [argv]\<rparr>"
  have g: "trace (snd (git args d ?w1)) = trace w @ [argv]" for args d
    by (simp add: git_trace)
  have "trace (snd (run argv dir w)) = trace w @ [argv]"
    using g
    by (simp add: run_def Let_def split: list.splits option.splits program.splits prod.splits)
       (metis snd_conv)
  with a show ?thesis by simp
qed

lemma test_git_executable_eq:
  "test_git_executable g w =
     (Inr (programs w g \<noteq> None), w\<lparr>trace := trace w @ [[g, ''--version'']]\<rparr>)"
proof (cases "programs w g")
  case None
  then show ?thesis
    by (simp add: test_git_executable_def try_except_def bind_def subprocess_call_def run_def
        return_def)
next
  case (Some prog)
  then show ?thesis
    by (cases prog)
       (simp_all add: test_git_executable_def try_except_def bind_def subprocess_call_def run_def
        return_def git_def Let_def)
qed

section \<open>The command lines a finalization can issue\<close>

lemma issues_only_return: "issues_only P (return x)"
  by (simp add: issues_only_def return_def)

lemma issues_only_raise: "issues_only P (raise e)"
  by (simp add: issues_only_def raise_def)

lemma issues_only_print: "issues_only P (print s)"
  by (simp add: issues_only_def print_def)

lemma issues_only_need: "issues_only P (need x)"
  by (cases x) (simp_all add: need_def issues_only_return issues_only_raise)

lemma issues_only_bind:
  assumes m: "issues_only P m" and f: "\<And>x. issues_only P (f x)"
  shows "issues_only P (bind m f)"
  unfolding issues_only_def
proof
  fix w
  from m obtain n1 where n1: "trace (snd (m w)) = trace w @ n1" "list_all P n1"
    unfolding issues_only_def by blast
  show "\<exists>new. trace (snd (bind m f w)) = trace w @ new \<and> list_all P new"
  proof (cases "m w")
    case (Pair r w1)
    show ?thesis
    proof (cases r)
      case (Inl e)
      with Pair n1 show ?thesis by (auto simp: bind_def)
    next
      case (Inr x)
      from f [of x] obtain n2 where n2: "trace (snd (f x w1)) = trace w1 @ n2" "list_all P n2"
        unfolding issues_only_def by blast
      with Pair Inr n1 have "trace (snd (bind m f w)) = trace w @ (n1 @ n2)" "list_all P (n1 @ n2)"
        by (simp_all add: bind_def)
      then show ?thesis by blast
    qed
  qed
qed

lemma issues_only_run: "P argv \<Longrightarrow> issues_only P (run argv dir)"
  unfolding issues_only_def
proof
  fix w
  assume "P argv"
  moreover have "trace (snd (run argv dir w)) = trace w @ [argv]"
    using run_trace [of argv dir w] by (metis prod.collapse)
  ultimately show "\<exists>new. trace (snd (run argv dir w)) = trace w @ new \<and> list_all P new"
    by (intro exI [of _ "[argv]"]) simp
qed

lemma issues_only_check_call: "P argv \<Longrightarrow> issues_only P (check_call argv dir)"
  unfolding check_call_def
  by (intro issues_only_bind issues_only_run)
     (auto simp: issues_only_return issues_only_raise split: prod.splits)

lemma issues_only_check_output: "P argv \<Longrightarrow> issues_only P (check_output argv dir)"
  unfolding check_output_def
  by (intro issues_only_bind issues_only_run)
     (auto simp: issues_only_return issues_only_raise split: prod.splits)

lemma issues_only_strip_output: "P argv \<Longrightarrow> issues_only P (strip_output argv dir)"
  unfolding strip_output_def
  by (intro issues_only_bind issues_only_check_output) (auto simp: issues_only_return)

lemma issues_only_add_all:
  "(\<And>f. P [git_exe cfg, ''add'', f]) \<Longrightarrow> issues_only P (add_all cfg fl)"
proof (induction fl)
  case Nil
  then show ?case by (simp add: issues_only_return)
next
  case (Cons f fl)
  have step: "issues_only P (bind (check_call [git_exe cfg, ''add'', f] None) (\<lambda>_. add_all cfg fl))"
    using Cons by (intro issues_only_bind issues_only_check_call) auto
  show ?case
    unfolding issues_only_def
  proof
    fix w
    show "\<exists>new. trace (snd (add_all cfg (f # fl) w)) = trace w @ new \<and> list_all P new"
    proof (cases "exists w f")
      case True
      with step show ?thesis by (simp add: issues_only_def)
    next
      case False
      then show ?thesis by simp
    qed
  qed
qed

lemma issues_only_upload:
  assumes "cl_bot_list cfg = []"
  shows "issues_only (\<lambda>argv. \<not> is_try argv) (upload cfg t)"
proof -
  have a: "\<not> is_try (git_cl cfg)" "\<not> is_try [git_exe cfg, ''cl'', ''issue'']"
    by (simp_all add: is_try_def git_cl_def)
  show ?thesis
    unfolding upload_def using assms a
    by (auto intro!: issues_only_bind issues_only_print issues_only_return
        issues_only_check_call issues_only_strip_output)
qed

lemma issues_only_exit:
  assumes "cl_bot_list cfg = []"
  shows "issues_only (\<lambda>argv. \<not> is_try argv) (exit cfg t)"
proof -
  have nt: "\<not> is_try [git_exe cfg, ''add'', f]" "\<not> is_try [git_exe cfg, ''commit'', ''-q'', ''-m'', m]"
    "\<not> is_try [git_exe cfg, ''checkout'', ''-q'', x]" "\<not> is_try [git_exe cfg, ''branch'', ''-q'', ''-D'', b]"
    "\<not> is_try [git_exe cfg, ''stash'', ''pop'']" for f m x b
    by (simp_all add: is_try_def)
  show ?thesis
    unfolding exit_def
    by (intro issues_only_bind issues_only_add_all issues_only_check_call
        issues_only_upload [OF assms] issues_only_need issues_only_return nt)
       (auto intro!: issues_only_bind issues_only_check_call issues_only_need
          issues_only_return nt)
qed

lemma filter_no_empty: "[] \<notin> set (bot_list bots)"
  by (simp add: bot_list_def)

section \<open>The claims about start-up, the bot list and the revision locator\<close>

text \<open>The definitions that \<open>simp\<close> unfolds to run the script on a concrete world.\<close>

lemmas process_eval = main_def test_git_executable_def try_except_def try_finally_def bind_def
  subprocess_call_def check_call_def check_output_def strip_output_def run_def return_def
  raise_def need_def print_def git_def is_clone_def git_clone_def git_in_repo_def git_repo_def
  isdir_def exists_def resolve_def truthy_def demo_world_def demo_options_def
  DepsRollConfig_def Let_def

lemmas txn_eval = exit_def upload_def git_cl_def git_try_def restore_target_def
  mid_world_def open_txn_def chromium_repo_def new_hash_def dec.simps digit_chars_def
  strip_def lstrip_def rstrip_def isspace_def bot_list_def split_def newline_def is_try_def

lemmas locator_eval = find_revision_and_hash_def create_temp_skia_clone_def locate_def found_def
  mkdtemp_def temp_name_def rmtree_def under_def cloned_repo_def parse_nat_def digit_val_def
  format_d_def revision_format_def svn_marker_def grep_def grep_atom_def
  search_def match_at_def skia_history_def

text \<open>
  C9 (as amended). \<open>main\<close> ends with a usage error whenever the consumer path is missing (absent or
  empty), or is not a directory, or the configured executable cannot be started. Nothing
  has been changed by then: the checkouts, the files, the directories and the current
  directory are as before, and no command but the self-test \<open>--version\<close> has been run.
  The self-test fails exactly when starting the executable raises \<open>OSError\<close>, that is
  when there is no such program, and \<open>test_git_executable\<close> returns \<open>False\<close> exactly
  then; the exit status of the self-test is not looked at.
\<close>

theorem main_usage_error:
  "(\<not> truthy (opt_chromium_path opts) \<or>
    (\<exists>p. opt_chromium_path opts = Some p \<and> \<not> isdir w p) \<or>
    programs w (opt_git_path opts) = None \<longrightarrow>
      (\<exists>msg. fst (main opts w) = Inl (UsageError msg)) \<and>
      repos (snd (main opts w)) = repos w \<and> files (snd (main opts w)) = files w \<and>
      dirs (snd (main opts w)) = dirs w \<and> cwd (snd (main opts w)) = cwd w \<and>
      set (trace (snd (main opts w))) \<subseteq> insert [opt_git_path opts, ''--version''] (set (trace w))) \<and>
   fst (test_git_executable g w) = Inr (programs w g \<noteq> None) \<and>
   (fst (subprocess_call [g, ''--version''] w) = Inl OSError \<longleftrightarrow> programs w g = None)"
proof -
  let ?goal = "(\<exists>msg. fst (main opts w) = Inl (UsageError msg)) \<and>
      repos (snd (main opts w)) = repos w \<and> files (snd (main opts w)) = files w \<and>
      dirs (snd (main opts w)) = dirs w \<and> cwd (snd (main opts w)) = cwd w \<and>
      set (trace (snd (main opts w))) \<subseteq> insert [opt_git_path opts, ''--version''] (set (trace w))"
  have usage: ?goal
    if h: "\<not> truthy (opt_chromium_path opts) \<or>
      (\<exists>p. opt_chromium_path opts = Some p \<and> \<not> isdir w p) \<or>
      programs w (opt_git_path opts) = None"
  proof (cases "opt_chromium_path opts")
    case None
    then show ?thesis by (auto simp: main_def raise_def)
  next
    case (Some p)
    show ?thesis
    proof (cases "p = [] \<or> \<not> isdir w p")
      case True
      with Some show ?thesis by (auto simp: main_def raise_def)
    next
      case False
      with h Some have "programs w (opt_git_path opts) = None" by (simp add: truthy_def)
      with False Some show ?thesis
        by (auto simp: main_def bind_def test_git_executable_eq raise_def)
    qed
  qed
  have test: "fst (test_git_executable g w) = Inr (programs w g \<noteq> None)"
    by (simp add: test_git_executable_eq)
  have os: "fst (subprocess_call [g, ''--version''] w) = Inl OSError \<longleftrightarrow> programs w g = None"
  proof (cases "programs w g")
    case None
    then show ?thesis by (simp add: subprocess_call_def bind_def run_def)
  next
    case (Some prog)
    then show ?thesis
      by (cases prog) (simp_all add: subprocess_call_def bind_def run_def return_def git_def Let_def)
  qed
  from usage test os show ?thesis by blast
qed

text \<open>
  The theorem at two start-ups in the demonstration world: a git executable that does
  not exist, and a consumer path that is no directory.
\<close>

theorem main_usage_error_witness:
  "(let opts = demo_options\<lparr>opt_git_path := ''nogit''\<rparr> in
    programs demo_world (opt_git_path opts) = None \<and>
    fst (main opts demo_world) = Inl (UsageError ''Invalid git executable.'') \<and>
    repos (snd (main opts demo_world)) = repos demo_world \<and>
    files (snd (main opts demo_world)) = files demo_world \<and>
    fst (test_git_executable ''nogit'' demo_world) = Inr False) \<and>
   (let opts = demo_options\<lparr>opt_chromium_path := Some ''/nowhere''\<rparr> in
    \<not> isdir demo_world ''/nowhere'' \<and>
    fst (main opts demo_world) = Inl (UsageError ''chromium_path must be a directory.'') \<and>
    trace (snd (main opts demo_world)) = [])"
proof -
  let ?o1 = "demo_options\<lparr>opt_git_path := ''nogit''\<rparr>"
  let ?o2 = "demo_options\<lparr>opt_chromium_path := Some ''/nowhere''\<rparr>"
  have p: "programs demo_world (opt_git_path ?o1) = None" by (simp add: demo_world_def)
  have m1: "fst (main ?o1 demo_world) = Inl (UsageError ''Invalid git executable.'')"
    by (simp add: process_eval)
  have d: "\<not> isdir demo_world ''/nowhere''" by (simp add: process_eval)
  have m2: "fst (main ?o2 demo_world) = Inl (UsageError ''chromium_path must be a directory.'')"
    by (simp add: process_eval)
  have t2: "trace (snd (main ?o2 demo_world)) = []" by (simp add: process_eval)
  from main_usage_error [of ?o1 demo_world "''nogit''"] p
  have "repos (snd (main ?o1 demo_world)) = repos demo_world"
    "files (snd (main ?o1 demo_world)) = files demo_world"
    "fst (test_git_executable ''nogit'' demo_world) = Inr False"
    by simp_all
  with p m1 d m2 t2 show ?thesis by (simp add: Let_def)
qed

text \<open>
  The claim as written fails for an executable that starts and then fails the self-test:
  with a program that exits with status 1 on every command line, the self-test exits
  with status 1, \<open>test_git_executable\<close> returns \<open>True\<close> all the same, and \<open>main\<close>
  goes on to the clone, where it ends with \<open>CalledProcessError\<close> and not with a usage
  error.
\<close>

theorem self_test_status_counterexample:
  "(let w = demo_world\<lparr>programs := [''git'' \<mapsto> Other 1]\<rparr> in
    fst (subprocess_call [''git'', ''--version''] w) = Inr 1 \<and>
    fst (test_git_executable ''git'' w) = Inr True \<and>
    fst (main demo_options w) = Inl CalledProcessError \<and>
    trace (snd (main demo_options w)) =
      [[''git'', ''--version''],
       [''git'', ''clone'', ''-q'', ''--depth=100'', ''--single-branch'',
        ''https://skia.googlesource.com/skia.git'', ''/tmp/git_skia_tmp_0'']])"
  by (simp add: process_eval find_hash_and_roll_deps_def find_revision_and_hash_def
      create_temp_skia_clone_def mkdtemp_def temp_name_def rmtree_def under_def
      format_d_def dec.simps digit_chars_def)

text \<open>
  C10. The bot list of a configuration is the option string cut at the commas, without
  the empty pieces: it has no empty entry, and the empty string gives the empty list.
  With an empty bot list, finalization never issues a \<open>git cl try\<close> command line,
  whatever the transaction and the world.
\<close>

theorem bot_list_drops_empty_entries:
  "[] \<notin> set (bot_list bots) \<and> bot_list [] = [] \<and>
   cl_bot_list (DepsRollConfig opts) = bot_list (opt_bots opts) \<and>
   (cl_bot_list cfg = [] \<longrightarrow>
      (\<exists>new. trace (snd (exit cfg t w)) = trace w @ new \<and> (\<forall>argv \<in> set new. \<not> is_try argv)))"
proof -
  have "\<exists>new. trace (snd (exit cfg t w)) = trace w @ new \<and> (\<forall>argv \<in> set new. \<not> is_try argv)"
    if "cl_bot_list cfg = []"
    using issues_only_exit [OF that, of t] by (simp add: issues_only_def list_all_iff)
  moreover have "bot_list [] = []" by (simp add: bot_list_def split_def)
  ultimately show ?thesis by (simp add: filter_no_empty DepsRollConfig_def)
qed

text \<open>
  The theorem at a finalization in the demonstration world, with the option string
  \<open>","\<close>: the commands issued go from the upload straight to the checkout.
\<close>

theorem bot_list_drops_empty_entries_witness:
  "bot_list '',linux,,mac,'' = [''linux'', ''mac''] \<and>
   (let cfg = DepsRollConfig (demo_options\<lparr>opt_bots := '',''\<rparr>) in
    cl_bot_list cfg = [] \<and>
    trace mid_world = [] \<and>
    trace (snd (exit cfg open_txn mid_world)) =
      [[''git'', ''add'', ''DEPS''],
       [''git'', ''commit'', ''-q'', ''-m'', ''roll''],
       [''git'', ''cl'', ''upload'', ''-f'', ''--cc=skia-team@google.com'', ''--bypass-hooks'',
        ''--bypass-watchlists''],
       [''git'', ''cl'', ''issue''],
       [''git'', ''checkout'', ''-q'', ''work''],
       [''git'', ''branch'', ''-q'', ''-D'', ''autogenerated_deps_roll_branch'']] \<and>
    list_all (\<lambda>argv. \<not> is_try argv) (trace (snd (exit cfg open_txn mid_world))))"
proof -
  let ?cfg = "DepsRollConfig (demo_options\<lparr>opt_bots := '',''\<rparr>)"
  have a: "bot_list '',linux,,mac,'' = [''linux'', ''mac'']" by (simp add: bot_list_def split_def)
  have b: "cl_bot_list ?cfg = []" by (simp add: process_eval txn_eval)
  have c: "trace mid_world = []" by (simp add: mid_world_def demo_world_def)
  have d: "trace (snd (exit ?cfg open_txn mid_world)) =
      [[''git'', ''add'', ''DEPS''],
       [''git'', ''commit'', ''-q'', ''-m'', ''roll''],
       [''git'', ''cl'', ''upload'', ''-f'', ''--cc=skia-team@google.com'', ''--bypass-hooks'',
        ''--bypass-watchlists''],
       [''git'', ''cl'', ''issue''],
       [''git'', ''checkout'', ''-q'', ''work''],
       [''git'', ''branch'', ''-q'', ''-D'', ''autogenerated_deps_roll_branch'']]"
    by (simp add: process_eval txn_eval)
  from bot_list_drops_empty_entries [of _ _ ?cfg open_txn mid_world] b c
  have "list_all (\<lambda>argv. \<not> is_try argv) (trace (snd (exit ?cfg open_txn mid_world)))"
    by (auto simp: list_all_iff)
  with a b c d show ?thesis by (simp add: Let_def)
qed

text \<open>
  C6, at the input where the code departs from it. \<open>git log --grep\<close> is run without
  \<open>-n 1\<close>: when two commits of the history carry the marker of revision 12345 (here a
  revert that quotes the message of the commit it reverts), the function returns both
  hashes, joined by a line feed, as "the hash". With one such commit it returns that
  commit's hash.
\<close>

theorem locator_two_matches:
  "(let w = demo_world\<lparr>remotes := [''https://skia.googlesource.com/skia.git'' \<mapsto>
             (''dddd4444'', ''Revert Add test'' @ newline @ ''> '' @ revision_format 12345 @ ''uuid'')
               # skia_history]\<rparr> in
    fst (find_revision_and_hash (DepsRollConfig demo_options) (Some 12345) w)
      = Inr (12345, ''dddd4444'' @ [CHR 0x0A] @ ''bbbb2222'')) \<and>
   fst (find_revision_and_hash (DepsRollConfig demo_options) (Some 12345) demo_world)
      = Inr (12345, ''bbbb2222'')"
  by (simp add: process_eval txn_eval locator_eval)

section \<open>Git commands inside a checkout\<close>

lemma exists_trace: "exists (w\<lparr>trace := tr, cwd := cwd w\<rparr>) = exists w"
  "exists (w\<lparr>trace := tr\<rparr>) = exists w"
  by (rule ext, simp add: exists_def resolve_def)+

lemma run_in_repo:
  assumes "at_repo g w r" "args \<noteq> [''--version'']" "\<not> is_clone args"
  shows "run (g # args) None w =
     (case git_repo args (exists w) (remotes w (origin r)) r of
        (res, r') \<Rightarrow>
          (Inr res, w\<lparr>trace := trace w @ [g # args], repos := (repos w)(cwd w \<mapsto> r')\<rparr>))"
  using assms
  by (simp add: run_def at_repo_def git_def git_in_repo_def Let_def exists_trace
      split: prod.splits)

lemma moved_refl: "moved w w' r' \<Longrightarrow> cwd w' = cwd w \<and> files w' = files w \<and> dirs w' = dirs w \<and>
  programs w' = programs w \<and> faults w' = faults w \<and> remotes w' = remotes w \<and>
  repos w' (cwd w) = Some r' \<and> exists w' = exists w"
  by (auto simp: moved_def exists_def resolve_def fun_eq_iff)

lemma moved_at_repo: "moved w w' r' \<Longrightarrow> at_repo g w r \<Longrightarrow> at_repo g w' r'"
  by (auto simp: moved_def at_repo_def)

lemma moved_trans:
  assumes "moved w w' r'" and "moved w' w'' r''"
  shows "moved w w'' r''"
proof -
  from assms(1) obtain tr pr where
    1: "w' = w\<lparr>trace := tr, printed := pr, repos := (repos w)(cwd w \<mapsto> r')\<rparr>"
    unfolding moved_def by blast
  from assms(2) obtain tr' pr' where
    2: "w'' = w'\<lparr>trace := tr', printed := pr', repos := (repos w')(cwd w' \<mapsto> r'')\<rparr>"
    unfolding moved_def by blast
  from 1 2 have "w'' = w\<lparr>trace := tr', printed := pr', repos := (repos w)(cwd w \<mapsto> r'')\<rparr>"
    by simp
  then show ?thesis unfolding moved_def by blast
qed

lemma moved_same: "repos w (cwd w) = Some r \<Longrightarrow> moved w w r"
  unfolding moved_def
  by (intro exI [of _ "trace w"] exI [of _ "printed w"]) (simp add: map_upd_triv)

lemma run_moved:
  assumes "at_repo g w r" "args \<noteq> [''--version'']" "\<not> is_clone args"
    and "run (g # args) None w = (x, w')"
  shows "\<exists>res r'. x = Inr res \<and> git_repo args (exists w) (remotes w (origin r)) r = (res, r')
     \<and> moved w w' r'"
proof -
  obtain res r' where g: "git_repo args (exists w) (remotes w (origin r)) r = (res, r')"
    by (cases "git_repo args (exists w) (remotes w (origin r)) r")
  with run_in_repo [OF assms(1-3)] assms(4)
  have "x = Inr res" "w' = w\<lparr>trace := trace w @ [g # args], repos := (repos w)(cwd w \<mapsto> r')\<rparr>"
    by simp_all
  then have "moved w w' r'"
    unfolding moved_def
    by (intro exI [of _ "trace w @ [g # args]"] exI [of _ "printed w"]) simp
  with g \<open>x = Inr res\<close> show ?thesis by blast
qed

lemma check_call_moved:
  assumes "at_repo g w r" "args \<noteq> [''--version'']" "\<not> is_clone args"
    and "check_call (g # args) None w = (Inr u, w')"
  shows "\<exists>out r'. git_repo args (exists w) (remotes w (origin r)) r = ((0, out), r')
     \<and> moved w w' r'"
proof -
  obtain x w1 where r: "run (g # args) None w = (x, w1)" by (cases "run (g # args) None w")
  from run_moved [OF assms(1-3) r] obtain res r' where
    x: "x = Inr res" "git_repo args (exists w) (remotes w (origin r)) r = (res, r')" "moved w w1 r'"
    by blast
  obtain rc out where res: "res = (rc, out)" by (cases res)
  from assms(4) r x(1) res have "rc = 0" "w' = w1"
    by (auto simp: check_call_def bind_def return_def raise_def split: if_splits)
  with x res show ?thesis by auto
qed

lemma check_output_moved:
  assumes "at_repo g w r" "args \<noteq> [''--version'']" "\<not> is_clone args"
    and "check_output (g # args) None w = (Inr out, w')"
  shows "\<exists>r'. git_repo args (exists w) (remotes w (origin r)) r = ((0, out), r')
     \<and> moved w w' r'"
proof -
  obtain x w1 where r: "run (g # args) None w = (x, w1)" by (cases "run (g # args) None w")
  from run_moved [OF assms(1-3) r] obtain res r' where
    x: "x = Inr res" "git_repo args (exists w) (remotes w (origin r)) r = (res, r')" "moved w w1 r'"
    by blast
  obtain rc out' where res: "res = (rc, out')" by (cases res)
  from assms(4) r x(1) res have "rc = 0" "w' = w1" "out' = out"
    by (auto simp: check_output_def bind_def return_def raise_def split: if_splits)
  with x res show ?thesis by auto
qed

lemma subprocess_call_moved:
  assumes "at_repo g w r" "args \<noteq> [''--version'']" "\<not> is_clone args"
    and "subprocess_call (g # args) w = (x, w')"
  shows "\<exists>rc out r'. x = Inr rc \<and> git_repo args (exists w) (remotes w (origin r)) r = ((rc, out), r')
     \<and> moved w w' r'"
proof -
  obtain y w1 where r: "run (g # args) None w = (y, w1)" by (cases "run (g # args) None w")
  from run_moved [OF assms(1-3) r] obtain res r' where
    x: "y = Inr res" "git_repo args (exists w) (remotes w (origin r)) r = (res, r')" "moved w w1 r'"
    by blast
  obtain rc out where res: "res = (rc, out)" by (cases res)
  from assms(4) r x(1) res have "x = Inr rc" "w' = w1"
    by (auto simp: subprocess_call_def bind_def return_def)
  with x res show ?thesis by auto
qed

text \<open>The commands of the transaction, one by one.\<close>

lemma git_diff: "git_repo [''diff'', ''--quiet'', ''HEAD''] p rm r
    = ((if modified r = {} then 0 else 1, []), r)"
  by (simp add: git_repo_def)

lemma git_stash_save: "git_repo [''stash'', ''save''] p rm r =
    (if modified r = {} then ((0, ''No local changes to save'' @ newline), r)
     else ((0, []), r\<lparr>stash := modified r # stash r, modified := {}, index := {}\<rparr>))"
  by (simp add: git_repo_def)

lemma git_stash_pop: "git_repo [''stash'', ''pop''] p rm r =
    (case stash r of
       [] \<Rightarrow> ((1, []), r)
     | s # ss \<Rightarrow> ((0, []), r\<lparr>stash := ss, modified := modified r \<union> s\<rparr>))"
  by (simp add: git_repo_def)

lemma git_symbolic_ref: "git_repo [''symbolic-ref'', ''--short'', ''HEAD''] p rm r =
    (if detached r then ((128, []), r) else ((0, head r @ newline), r))"
  by (simp add: git_repo_def)

lemma git_rev_parse: "git_repo [''rev-parse'', ''HEAD''] p rm r =
    (if detached r then ((0, head r @ newline), r)
     else (case branches r (head r) of
             None \<Rightarrow> ((128, []), r)
           | Some h \<Rightarrow> ((0, h @ newline), r)))"
  by (simp add: git_repo_def)

lemma git_show_ref: "git_repo [''show-ref'', ''--quiet'', b] p rm r =
    ((if b \<in> dom (branches r) then 0 else 1, []), r)"
  by (simp add: git_repo_def)

lemma git_checkout: "git_repo [''checkout'', ''-q'', x] p rm r =
    (if x \<in> dom (branches r) then ((0, []), r\<lparr>head := x, detached := False\<rparr>)
     else if x \<in> objects r then ((0, []), r\<lparr>head := x, detached := True\<rparr>)
     else ((1, []), r))"
  by (simp add: git_repo_def)

lemma git_branch_D: "git_repo [''branch'', ''-q'', ''-D'', b] p rm r =
    (if b \<notin> dom (branches r) \<or> (\<not> detached r \<and> head r = b) then ((1, []), r)
     else ((0, []), r\<lparr>branches := (branches r)(b := None)\<rparr>))"
  by (simp add: git_repo_def)

lemma git_checkout_b: "git_repo [''checkout'', ''-q'', ''-b'', b, ''origin/master''] p rm r =
    (case upstream r of
       [] \<Rightarrow> ((128, []), r)
     | (h, m) # _ \<Rightarrow>
         if b \<in> dom (branches r) then ((128, []), r)
         else ((0, []), r\<lparr>branches := (branches r)(b \<mapsto> h), head := b, detached := False\<rparr>))"
  by (cases "upstream r") (simp_all add: git_repo_def split: prod.splits)

lemma git_svn_info: "git_repo [''svn'', ''info''] p rm r =
    (case svn_info_text r of None \<Rightarrow> ((1, []), r) | Some t \<Rightarrow> ((0, t), r))"
  by (simp add: git_repo_def)

lemma git_add: "git_repo [''add'', f] p rm r =
    (if p f then ((0, []), r\<lparr>index := index r \<union> ({f} \<inter> modified r)\<rparr>) else ((128, []), r))"
  by (simp add: git_repo_def)

lemma git_commit: "git_repo [''commit'', ''-q'', ''-m'', m] p rm r =
    (if index r = {} then ((1, []), r)
     else ((0, []),
           r\<lparr>objects := insert (new_hash (serial r)) (objects r),
             head := (if detached r then new_hash (serial r) else head r),
             branches := (if detached r then branches r
                          else (branches r)(head r \<mapsto> new_hash (serial r))),
             modified := modified r - index r,
             index := {},
             serial := Suc (serial r)\<rparr>))"
  by (simp add: git_repo_def)

lemma git_cl_upload: "git_repo (''cl'' # ''upload'' # rest) p rm r = ((0, []), r)"
  by (simp add: git_repo_def)

lemma git_cl_issue: "git_repo [''cl'', ''issue''] p rm r = ((0, issue_text r), r)"
  by (simp add: git_repo_def)

lemma git_cl_try: "git_repo (''cl'' # ''try'' # rest) p rm r = ((0, []), r)"
  by (simp add: git_repo_def)

end
